theory Spec2Isabelle
  imports Main
begin

section \<open>Values and primitives of the host language\<close>

text \<open>
  The extractor works on decoded JSON: every issue, field, comment, link and work-log
  entry is a Python object produced by \<^verbatim>\<open>response.json()\<close>. The datatype below is
  that value space. Objects are association lists in insertion order (keys are taken
  to be distinct, as the decoder produces them); numbers are restricted to integers;
  characters are the code points below 256.
\<close>

datatype json =
    JNull
  | JBool bool
  | JInt int
  | JStr string
  | JList "json list"
  | JObj "(string \<times> json) list"

text \<open>The exceptions the modelled code can raise on a decoded value.\<close>

datatype py_error = AttributeError | TypeError | KeyError

type_synonym 'a result = "py_error + 'a"

text \<open>Sequencing of fallible steps: the first raise ends the computation.\<close>

definition bnd :: "'a result \<Rightarrow> ('a \<Rightarrow> 'b result) \<Rightarrow> 'b result" where
  "bnd m f = (case m of Inl e \<Rightarrow> Inl e | Inr v \<Rightarrow> f v)"

text \<open>Truth value of an object, as \<^verbatim>\<open>not x\<close> and \<^verbatim>\<open>if x\<close> test it.\<close>

fun py_truthy :: "json \<Rightarrow> bool" where
  "py_truthy JNull = False"
| "py_truthy (JBool b) = b"
| "py_truthy (JInt n) = (n \<noteq> 0)"
| "py_truthy (JStr s) = (s \<noteq> [])"
| "py_truthy (JList xs) = (xs \<noteq> [])"
| "py_truthy (JObj kvs) = (kvs \<noteq> [])"

text \<open>
  \<^verbatim>\<open>x.get(k, d)\<close>: only a dict has the method; on any other object the attribute
  lookup raises.
\<close>

fun py_get :: "json \<Rightarrow> string \<Rightarrow> json \<Rightarrow> json result" where
  "py_get (JObj kvs) k d = Inr (case map_of kvs k of None \<Rightarrow> d | Some v \<Rightarrow> v)"
| "py_get _ k d = Inl AttributeError"

text \<open>\<^verbatim>\<open>x[k]\<close> with a string key: a missing key and a non-dict both raise.\<close>

fun py_subscript :: "json \<Rightarrow> string \<Rightarrow> json result" where
  "py_subscript (JObj kvs) k = (case map_of kvs k of None \<Rightarrow> Inl KeyError | Some v \<Rightarrow> Inr v)"
| "py_subscript _ k = Inl TypeError"

text \<open>
  Iteration (\<^verbatim>\<open>for x in v\<close>, \<^verbatim>\<open>list.extend(v)\<close>, \<^verbatim>\<open>sep.join(v)\<close>): a list yields
  its elements, a dict its keys, a string its characters; nothing else is iterable.
\<close>

fun py_iter :: "json \<Rightarrow> json list result" where
  "py_iter (JList xs) = Inr xs"
| "py_iter (JObj kvs) = Inr (map (\<lambda>kv. JStr (fst kv)) kvs)"
| "py_iter (JStr s) = Inr (map (\<lambda>c. JStr [c]) s)"
| "py_iter _ = Inl TypeError"

fun py_len :: "json \<Rightarrow> nat result" where
  "py_len (JList xs) = Inr (length xs)"
| "py_len (JObj kvs) = Inr (length kvs)"
| "py_len (JStr s) = Inr (length s)"
| "py_len _ = Inl TypeError"

text \<open>Substring test, for \<^verbatim>\<open>k in s\<close> on a string.\<close>

fun starts_with :: "string \<Rightarrow> string \<Rightarrow> bool" where
  "starts_with [] s = True"
| "starts_with (p # ps) [] = False"
| "starts_with (p # ps) (c # cs) = (p = c \<and> starts_with ps cs)"

fun py_substring :: "string \<Rightarrow> string \<Rightarrow> bool" where
  "py_substring p [] = (p = [])"
| "py_substring p (c # cs) = (starts_with p (c # cs) \<or> py_substring p cs)"

text \<open>
  \<^verbatim>\<open>k in v\<close> for a string literal \<open>k\<close>: key membership on a dict, element
  membership on a list, substring on a string; other objects are not containers.
\<close>

fun py_contains :: "string \<Rightarrow> json \<Rightarrow> bool result" where
  "py_contains k (JObj kvs) = Inr (k \<in> set (map fst kvs))"
| "py_contains k (JList xs) = Inr (JStr k \<in> set xs)"
| "py_contains k (JStr s) = Inr (py_substring k s)"
| "py_contains k _ = Inl TypeError"

subsection \<open>Rendering of values in formatted strings\<close>

text \<open>Decimal digits of a natural number, most significant first.\<close>

fun str_nat :: "nat \<Rightarrow> string" where
  "str_nat n = (if n < 10 then [char_of (48 + n)]
                else str_nat (n div 10) @ [char_of (48 + n mod 10)])"

declare str_nat.simps [simp del]

definition str_int :: "int \<Rightarrow> string" where
  "str_int i = (if i < 0 then CHR ''-'' # str_nat (nat (- i)) else str_nat (nat i))"

text \<open>Separator-joined concatenation of strings (\<^verbatim>\<open>sep.join\<close> on strings).\<close>

fun join_strs :: "string \<Rightarrow> string list \<Rightarrow> string" where
  "join_strs sep [] = []"
| "join_strs sep [x] = x"
| "join_strs sep (x # y # ys) = x @ sep @ join_strs sep (y # ys)"

text \<open>
  \<^verbatim>\<open>repr\<close> of a string: single quotes unless the string has a single quote and no
  double quote; the quote and the backslash are escaped, tab, line feed and carriage
  return get their letters, every other unprintable character its two-digit hex code.
\<close>

definition hex_digit :: "nat \<Rightarrow> char" where
  "hex_digit n = (''0123456789abcdef'') ! (n mod 16)"

definition py_printable :: "char \<Rightarrow> bool" where
  "py_printable c = (let n = (of_char c :: nat)
     in (32 \<le> n \<and> n < 127) \<or> (161 \<le> n \<and> n \<noteq> 173))"

definition repr_char :: "char \<Rightarrow> char \<Rightarrow> string" where
  "repr_char q c =
     (if c = q \<or> c = CHR 0x5C then [CHR 0x5C, c]
      else if c = CHR 0x09 then [CHR 0x5C, CHR ''t'']
      else if c = CHR 0x0A then [CHR 0x5C, CHR ''n'']
      else if c = CHR 0x0D then [CHR 0x5C, CHR ''r'']
      else if py_printable c then [c]
      else [CHR 0x5C, CHR ''x'', hex_digit (of_char c div 16), hex_digit (of_char c mod 16)])"

definition repr_str :: "string \<Rightarrow> string" where
  "repr_str s =
     (let q = (if CHR 0x27 \<in> set s \<and> CHR 0x22 \<notin> set s then CHR 0x22 else CHR 0x27)
      in [q] @ concat (map (repr_char q) s) @ [q])"

fun py_repr :: "json \<Rightarrow> string" where
  "py_repr JNull = ''None''"
| "py_repr (JBool b) = (if b then ''True'' else ''False'')"
| "py_repr (JInt n) = str_int n"
| "py_repr (JStr s) = repr_str s"
| "py_repr (JList xs) = ''['' @ join_strs '', '' (map py_repr xs) @ '']''"
| "py_repr (JObj kvs) =
     ''{'' @ join_strs '', '' (map (\<lambda>kv. repr_str (fst kv) @ '': '' @ py_repr (snd kv)) kvs) @ ''}''"

text \<open>\<^verbatim>\<open>str(x)\<close>, which \<^verbatim>\<open>f"{x}"\<close> applies: a string is itself, anything else its \<^verbatim>\<open>repr\<close>.\<close>

fun py_str :: "json \<Rightarrow> string" where
  "py_str (JStr s) = s"
| "py_str v = py_repr v"

text \<open>\<^verbatim>\<open>sep.join(items)\<close>: every item must be a string.\<close>

fun py_strs :: "json list \<Rightarrow> string list result" where
  "py_strs [] = Inr []"
| "py_strs (JStr s # xs) = bnd (py_strs xs) (\<lambda>ss. Inr (s # ss))"
| "py_strs (_ # xs) = Inl TypeError"

definition py_join :: "string \<Rightarrow> json list \<Rightarrow> string result" where
  "py_join sep xs = bnd (py_strs xs) (\<lambda>ss. Inr (join_strs sep ss))"

text \<open>
  A \<^verbatim>\<open>for\<close> loop over a sequence whose body updates the loop's variables and may
  raise; a list comprehension, whose element expression may raise.
\<close>

fun for_loop :: "('s \<Rightarrow> json \<Rightarrow> 's result) \<Rightarrow> json list \<Rightarrow> 's \<Rightarrow> 's result" where
  "for_loop body [] s = Inr s"
| "for_loop body (x # xs) s = bnd (body s x) (for_loop body xs)"

fun py_map :: "(json \<Rightarrow> 'a result) \<Rightarrow> json list \<Rightarrow> 'a list result" where
  "py_map f [] = Inr []"
| "py_map f (x # xs) = bnd (f x) (\<lambda>y. bnd (py_map f xs) (\<lambda>ys. Inr (y # ys)))"

section \<open>Field normalizers\<close>

subsection \<open>\<^verbatim>\<open>process_comments\<close>\<close>

definition format_comment :: "json \<Rightarrow> string result" where
  "format_comment comment =
     bnd (py_get comment ''author'' (JObj [])) (\<lambda>a.
     bnd (py_get a ''displayName'' (JStr ''Unknown'')) (\<lambda>author.
     bnd (py_get comment ''created'' (JStr ''Unknown date'')) (\<lambda>created.
     bnd (py_get comment ''body'' (JStr ''No content'')) (\<lambda>body.
     Inr (''['' @ py_str created @ ''] '' @ py_str author @ '': '' @ py_str body)))))"

definition comment_separator :: string where
  "comment_separator = [CHR 0x0A] @ ''---'' @ [CHR 0x0A]"

definition process_comments :: "json \<Rightarrow> string result" where
  "process_comments comment_field =
     (if \<not> py_truthy comment_field then Inr []
      else bnd (py_get comment_field ''comments'' JNull) (\<lambda>c.
        if \<not> py_truthy c then Inr []
        else
          bnd (py_get comment_field ''comments'' (JList [])) (\<lambda>comments.
          bnd (py_iter comments) (\<lambda>items.
          bnd (for_loop (\<lambda>formatted_comments comment.
                 bnd (format_comment comment) (\<lambda>formatted_comment.
                 Inr (formatted_comments @ [formatted_comment]))) items []) (\<lambda>formatted_comments.
          Inr (join_strs comment_separator formatted_comments))))))"

subsection \<open>\<^verbatim>\<open>process_issue_links\<close> and \<^verbatim>\<open>process_subtasks\<close>\<close>

text \<open>
  Both functions read the status name and the summary of an issue stub with the same
  two conditional expressions; the condition (\<^verbatim>\<open>"fields" in issue\<close>) is evaluated first.
\<close>

definition stub_status :: "json \<Rightarrow> json result" where
  "stub_status issue =
     bnd (py_contains ''fields'' issue) (\<lambda>has_fields.
       if has_fields then
         bnd (py_get issue ''fields'' (JObj [])) (\<lambda>f.
         bnd (py_get f ''status'' (JObj [])) (\<lambda>st.
         py_get st ''name'' (JStr ''Unknown status'')))
       else Inr (JStr ''Unknown status''))"

definition stub_summary :: "json \<Rightarrow> json result" where
  "stub_summary issue =
     bnd (py_contains ''fields'' issue) (\<lambda>has_fields.
       if has_fields then
         bnd (py_get issue ''fields'' (JObj [])) (\<lambda>f.
         py_get f ''summary'' (JStr ''No summary''))
       else Inr (JStr ''No summary''))"

text \<open>The tail of the loop body, after the direction of the link is known.\<close>

definition format_link :: "string \<Rightarrow> json \<Rightarrow> json \<Rightarrow> string result" where
  "format_link direction relation linked_issue =
     bnd (py_get linked_issue ''key'' (JStr ''Unknown'')) (\<lambda>key.
     bnd (stub_status linked_issue) (\<lambda>status.
     bnd (stub_summary linked_issue) (\<lambda>summary.
     Inr (direction @ '': '' @ py_str relation @ '' '' @ py_str key
          @ '' ['' @ py_str status @ ''] - '' @ py_str summary))))"

text \<open>One iteration of the loop: \<open>None\<close> is the \<^verbatim>\<open>continue\<close> of the last branch.\<close>

definition link_line :: "json \<Rightarrow> string option result" where
  "link_line link =
     bnd (py_contains ''outwardIssue'' link) (\<lambda>has_outward.
       if has_outward then
         bnd (py_get link ''type'' (JObj [])) (\<lambda>t.
         bnd (py_get t ''outward'' (JStr ''relates to'')) (\<lambda>relation.
         bnd (py_get link ''outwardIssue'' (JObj [])) (\<lambda>linked_issue.
         bnd (format_link ''outward'' relation linked_issue) (\<lambda>l. Inr (Some l)))))
       else
         bnd (py_contains ''inwardIssue'' link) (\<lambda>has_inward.
           if has_inward then
             bnd (py_get link ''type'' (JObj [])) (\<lambda>t.
             bnd (py_get t ''inward'' (JStr ''is related to by'')) (\<lambda>relation.
             bnd (py_get link ''inwardIssue'' (JObj [])) (\<lambda>linked_issue.
             bnd (format_link ''inward'' relation linked_issue) (\<lambda>l. Inr (Some l)))))
           else Inr None))"

definition process_issue_links :: "json \<Rightarrow> string result" where
  "process_issue_links issuelinks =
     (if \<not> py_truthy issuelinks then Inr []
      else
        bnd (py_iter issuelinks) (\<lambda>items.
        bnd (for_loop (\<lambda>formatted_links link.
               bnd (link_line link) (\<lambda>r.
                 case r of None \<Rightarrow> Inr formatted_links
                 | Some formatted_link \<Rightarrow> Inr (formatted_links @ [formatted_link]))) items [])
            (\<lambda>formatted_links.
        Inr (join_strs [CHR 0x0A] formatted_links))))"

definition format_subtask :: "json \<Rightarrow> string result" where
  "format_subtask subtask =
     bnd (py_get subtask ''key'' (JStr ''Unknown'')) (\<lambda>key.
     bnd (stub_status subtask) (\<lambda>status.
     bnd (stub_summary subtask) (\<lambda>summary.
     Inr (py_str key @ '' ['' @ py_str status @ ''] - '' @ py_str summary))))"

definition process_subtasks :: "json \<Rightarrow> string result" where
  "process_subtasks subtasks =
     (if \<not> py_truthy subtasks then Inr []
      else
        bnd (py_iter subtasks) (\<lambda>items.
        bnd (for_loop (\<lambda>formatted_subtasks subtask.
               bnd (format_subtask subtask) (\<lambda>formatted_subtask.
               Inr (formatted_subtasks @ [formatted_subtask]))) items []) (\<lambda>formatted_subtasks.
        Inr (join_strs [CHR 0x0A] formatted_subtasks))))"

subsection \<open>\<^verbatim>\<open>process_fix_versions\<close> and \<^verbatim>\<open>process__versions\<close>\<close>

definition process_fix_versions :: "json \<Rightarrow> string result" where
  "process_fix_versions fix_versions =
     (if \<not> py_truthy fix_versions then Inr []
      else
        bnd (py_iter fix_versions) (\<lambda>items.
        bnd (py_map (\<lambda>version. py_get version ''name'' (JStr ''Unknown'')) items) (\<lambda>names.
        py_join '', '' names)))"

definition process__versions :: "json \<Rightarrow> string result" where
  "process__versions versions =
     (if \<not> py_truthy versions then Inr []
      else
        bnd (py_iter versions) (\<lambda>items.
        bnd (py_map (\<lambda>version. py_get version ''name'' (JStr ''Unknown'')) items) (\<lambda>names.
        py_join '', '' names)))"

section \<open>Work-time aggregation\<close>

text \<open>
  \<^verbatim>\<open>convert_seconds_to_hm(seconds)\<close>: floor division and the modulus of the host
  language agree with \<open>div\<close> and \<open>mod\<close> on \<open>int\<close>.
\<close>

definition convert_seconds_to_hm :: "int \<Rightarrow> string" where
  "convert_seconds_to_hm seconds =
     (let hours = seconds div 3600;
          minutes = (seconds mod 3600) div 60
      in str_int hours @ ''h '' @ str_int minutes @ ''m'')"

text \<open>
  The \<^verbatim>\<open>defaultdict(int)\<close> of the first loop, in insertion order. A key must be
  hashable; keys are compared as the host language compares them, so \<^verbatim>\<open>True\<close> and
  \<^verbatim>\<open>1\<close> are one key. An addend must be a number; a boolean counts as 0 or 1.
\<close>

fun py_hashable :: "json \<Rightarrow> bool" where
  "py_hashable (JList xs) = False"
| "py_hashable (JObj kvs) = False"
| "py_hashable v = True"

fun py_number :: "json \<Rightarrow> int option" where
  "py_number (JInt n) = Some n"
| "py_number (JBool b) = Some (if b then 1 else 0)"
| "py_number v = None"

fun py_key_eq :: "json \<Rightarrow> json \<Rightarrow> bool" where
  "py_key_eq JNull JNull = True"
| "py_key_eq (JStr a) (JStr b) = (a = b)"
| "py_key_eq a b = (case (py_number a, py_number b) of
                      (Some m, Some n) \<Rightarrow> m = n | _ \<Rightarrow> False)"

fun dd_add :: "(json \<times> int) list \<Rightarrow> json \<Rightarrow> int \<Rightarrow> (json \<times> int) list" where
  "dd_add [] k t = [(k, 0 + t)]"
| "dd_add ((k', v) # rest) k t =
     (if py_key_eq k' k then (k', v + t) # rest else (k', v) # dd_add rest k t)"

text \<open>The body of the first loop: \<^verbatim>\<open>temps_par_collaborateur[author] += time_spent_seconds\<close>.\<close>

definition add_entry :: "(json \<times> int) list \<Rightarrow> json \<Rightarrow> (json \<times> int) list result" where
  "add_entry temps_par_collaborateur entry =
     bnd (py_get entry ''author'' (JObj [])) (\<lambda>a.
     bnd (py_get a ''displayName'' (JStr ''Inconnu'')) (\<lambda>author.
     bnd (py_get entry ''timeSpentSeconds'' (JInt 0)) (\<lambda>time_spent_seconds.
       if \<not> py_hashable author then Inl TypeError
       else case py_number time_spent_seconds of
              None \<Rightarrow> Inl TypeError
            | Some t \<Rightarrow> Inr (dd_add temps_par_collaborateur author t))))"

text \<open>The first loop of \<^verbatim>\<open>calculer_temps_par_collaborateur\<close>: total seconds per author.\<close>

definition temps_par_collaborateur :: "json \<Rightarrow> (json \<times> int) list result" where
  "temps_par_collaborateur worklog =
     bnd (py_iter worklog) (\<lambda>entries. for_loop add_entry entries [])"

text \<open>The whole function: the second loop formats every total.\<close>

definition calculer_temps_par_collaborateur :: "json \<Rightarrow> (json \<times> string) list result" where
  "calculer_temps_par_collaborateur worklog =
     bnd (temps_par_collaborateur worklog) (\<lambda>totals.
     Inr (map (\<lambda>(author, total_seconds). (author, convert_seconds_to_hm total_seconds)) totals))"

section \<open>Record flattener\<close>






section \<open>Pagination client\<close>

text \<open>
  The search endpoint is the environment. A request is the count probe
  (\<^verbatim>\<open>maxResults: 0\<close>) or a page request with its \<^verbatim>\<open>startAt\<close> and \<^verbatim>\<open>maxResults\<close>; the
  query and the field list are the same in every request. \<^verbatim>\<open>requests.post\<close> raises,
  or returns a response with a status code and a body, which \<^verbatim>\<open>response.json()\<close>
  decodes or fails to decode (\<open>None\<close>). A server answers the \<open>n\<close>-th request of a run.
\<close>

datatype request = CountProbe | PageRequest int int

datatype http_outcome = TransportError | Response int "json option"

type_synonym server = "nat \<Rightarrow> request \<Rightarrow> http_outcome"

text \<open>The payload of the next page request.\<close>

definition payload :: "int \<Rightarrow> int \<Rightarrow> json list \<Rightarrow> request" where
  "payload total_to_fetch start_at all_issues =
     PageRequest start_at (min 100 (total_to_fetch - int (length all_issues)))"

text \<open>
  The \<^verbatim>\<open>try\<close> block of the loop: the records to append, or \<open>None\<close> when the loop
  is left (a raised exception, a status other than 200, a page without records).
\<close>

definition page_items :: "http_outcome \<Rightarrow> json list option" where
  "page_items out =
     (case out of
        TransportError \<Rightarrow> None
      | Response status_code body \<Rightarrow>
          if status_code = 200 then
            (case body of
               None \<Rightarrow> None
             | Some data \<Rightarrow>
                 (case py_subscript data ''issues'' of
                    Inl e \<Rightarrow> None
                  | Inr issues \<Rightarrow>
                      (case py_len issues of
                         Inl e \<Rightarrow> None
                       | Inr n \<Rightarrow>
                           if n = 0 then None
                           else (case py_iter issues of
                                   Inl e \<Rightarrow> None
                                 | Inr items \<Rightarrow> Some items))))
          else None)"

text \<open>
  The \<^verbatim>\<open>while\<close> loop. Its state is the accumulated list and \<^verbatim>\<open>start_at\<close>; the number
  of requests sent so far and the requests themselves are carried along.
\<close>

function fetch_pages ::
  "server \<Rightarrow> int \<Rightarrow> nat \<Rightarrow> int \<Rightarrow> json list \<Rightarrow> request list \<Rightarrow> request list \<times> json list"
where
  "fetch_pages srv total_to_fetch n start_at all_issues sent =
     (if int (length all_issues) < total_to_fetch then
        (case page_items (srv n (payload total_to_fetch start_at all_issues)) of
           None \<Rightarrow> (sent @ [payload total_to_fetch start_at all_issues], all_issues)
         | Some items \<Rightarrow>
             fetch_pages srv total_to_fetch (Suc n) (start_at + int (length items))
               (all_issues @ items) (sent @ [payload total_to_fetch start_at all_issues]))
      else (sent, all_issues))"
  by pat_completeness auto
termination
proof (relation "measure (\<lambda>(srv, total_to_fetch, n, start_at, all_issues, sent).
                   nat (total_to_fetch - int (length all_issues)))")
  show "wf (measure (\<lambda>(srv, total_to_fetch, n, start_at, all_issues, sent).
                   nat (total_to_fetch - int (length all_issues))))"
    by simp
next
  fix srv :: server and total_to_fetch :: int and n :: nat and start_at :: int
    and all_issues :: "json list" and sent :: "request list" and items :: "json list"
  assume "int (length all_issues) < total_to_fetch"
    and "page_items (srv n (payload total_to_fetch start_at all_issues)) = Some items"
  then have "items \<noteq> []"
    by (cases "srv n (payload total_to_fetch start_at all_issues)")
       (auto simp: page_items_def
             split: if_splits option.splits sum.splits
             elim!: py_len.elims py_iter.elims)
  then have "0 < length items" by simp
  with \<open>int (length all_issues) < total_to_fetch\<close>
  show "((srv, total_to_fetch, Suc n, start_at + int (length items), all_issues @ items,
          sent @ [payload total_to_fetch start_at all_issues]),
         (srv, total_to_fetch, n, start_at, all_issues, sent))
        \<in> measure (\<lambda>(srv, total_to_fetch, n, start_at, all_issues, sent).
                   nat (total_to_fetch - int (length all_issues)))"
    by simp
qed

declare fetch_pages.simps [simp del]

text \<open>
  \<^verbatim>\<open>fetch_jira_issues\<close>: the count probe, inside its \<^verbatim>\<open>try\<close>, then the loop. The
  comparison that heads the loop is outside every \<^verbatim>\<open>try\<close>: a total that is not a
  number raises there.
\<close>

definition fetch_jira_issues :: "server \<Rightarrow> int option \<Rightarrow> request list \<times> json list result" where
  "fetch_jira_issues srv max_issues =
     (case srv 0 CountProbe of
        TransportError \<Rightarrow> ([CountProbe], Inr [])
      | Response status_code body \<Rightarrow>
          if status_code \<noteq> 200 then ([CountProbe], Inr [])
          else
            (case body of
               None \<Rightarrow> ([CountProbe], Inr [])
             | Some data \<Rightarrow>
                 (case py_subscript data ''total'' of
                    Inl e \<Rightarrow> ([CountProbe], Inr [])
                  | Inr total_available \<Rightarrow>
                      (case max_issues of
                         None \<Rightarrow>
                           (case py_number total_available of
                              None \<Rightarrow> ([CountProbe], Inl TypeError)
                            | Some total_to_fetch \<Rightarrow>
                                (case fetch_pages srv total_to_fetch 1 0 [] [CountProbe] of
                                   (sent, all_issues) \<Rightarrow> (sent, Inr all_issues)))
                       | Some m \<Rightarrow>
                           (case py_number total_available of
                              None \<Rightarrow> ([CountProbe], Inr [])
                            | Some t \<Rightarrow>
                                (case fetch_pages srv (min m t) 1 0 [] [CountProbe] of
                                   (sent, all_issues) \<Rightarrow> (sent, Inr all_issues)))))))"

section \<open>Reading decimal numerals\<close>

text \<open>
  The reading of a decimal numeral, used to say what the digits printed by the formatter
  denote.
\<close>

definition digit_val :: "char \<Rightarrow> nat" where
  "digit_val c = of_char c - 48"

definition nat_of_digits :: "string \<Rightarrow> nat" where
  "nat_of_digits s = foldl (\<lambda>acc c. 10 * acc + digit_val c) 0 s"

section \<open>Shapes of the input\<close>

text \<open>
  The tracker sends objects whose nested attributes, when present, are objects again.
  The predicates below say so for each kind of entry; the functions next to them read
  an entry the way the specification words it: an attribute, or its default.
\<close>

fun attr :: "json \<Rightarrow> string \<Rightarrow> json option" where
  "attr (JObj kvs) k = map_of kvs k"
| "attr _ k = None"

fun is_obj :: "json \<Rightarrow> bool" where
  "is_obj (JObj kvs) = True"
| "is_obj _ = False"

definition text_or :: "string \<Rightarrow> json option \<Rightarrow> string" where
  "text_or d v = (case v of None \<Rightarrow> d | Some x \<Rightarrow> py_str x)"

definition obj_or_absent :: "json option \<Rightarrow> bool" where
  "obj_or_absent v = (case v of None \<Rightarrow> True | Some x \<Rightarrow> is_obj x)"

text \<open>A version entry: an object whose name, when present, is a string.\<close>

definition version_entry :: "json \<Rightarrow> bool" where
  "version_entry v =
     (is_obj v \<and> (case attr v ''name'' of None \<Rightarrow> True | Some (JStr s) \<Rightarrow> True | Some _ \<Rightarrow> False))"

definition version_label :: "json \<Rightarrow> string" where
  "version_label v = text_or ''Unknown'' (attr v ''name'')"

text \<open>A comment: an object whose author, when present, is an object.\<close>

definition comment_entry :: "json \<Rightarrow> bool" where
  "comment_entry c = (is_obj c \<and> obj_or_absent (attr c ''author''))"

definition comment_text :: "json \<Rightarrow> string" where
  "comment_text c =
     ''['' @ text_or ''Unknown date'' (attr c ''created'') @ ''] ''
     @ text_or ''Unknown'' (Option.bind (attr c ''author'') (\<lambda>a. attr a ''displayName''))
     @ '': '' @ text_or ''No content'' (attr c ''body'')"

text \<open>
  The comment field: an object whose \<open>comments\<close>, when present, is a list of comments.
\<close>

definition comment_field_shape :: "json \<Rightarrow> bool" where
  "comment_field_shape cf =
     (is_obj cf \<and> (case attr cf ''comments'' of
                     None \<Rightarrow> True
                   | Some (JList cs) \<Rightarrow> list_all comment_entry cs
                   | Some _ \<Rightarrow> False))"

text \<open>
  An issue stub, as a link end or a subtask carries it: an object whose \<open>fields\<close>, when
  present, is an object whose \<open>status\<close>, when present, is an object.
\<close>

definition stub_entry :: "json \<Rightarrow> bool" where
  "stub_entry p =
     (is_obj p \<and> (case attr p ''fields'' of
                    None \<Rightarrow> True
                  | Some f \<Rightarrow> is_obj f \<and> obj_or_absent (attr f ''status'')))"

definition stub_text :: "json \<Rightarrow> string" where
  "stub_text p =
     text_or ''Unknown'' (attr p ''key'')
     @ '' ['' @ text_or ''Unknown status''
                (Option.bind (Option.bind (attr p ''fields'') (\<lambda>f. attr f ''status''))
                   (\<lambda>s. attr s ''name''))
     @ ''] - '' @ text_or ''No summary'' (Option.bind (attr p ''fields'') (\<lambda>f. attr f ''summary''))"

text \<open>
  An issue link: an object; when it has an end-pointer, its type, when present, is an
  object and the end that is read is an issue stub.
\<close>

definition link_entry :: "json \<Rightarrow> bool" where
  "link_entry l =
     (is_obj l \<and>
      (case attr l ''outwardIssue'' of
         Some p \<Rightarrow> obj_or_absent (attr l ''type'') \<and> stub_entry p
       | None \<Rightarrow>
           (case attr l ''inwardIssue'' of
              Some p \<Rightarrow> obj_or_absent (attr l ''type'') \<and> stub_entry p
            | None \<Rightarrow> True)))"

text \<open>The line of a link, or \<open>None\<close> for a link without end-pointer.\<close>

definition link_text :: "json \<Rightarrow> string option" where
  "link_text l =
     (case attr l ''outwardIssue'' of
        Some p \<Rightarrow>
          Some (''outward: ''
                @ text_or ''relates to'' (Option.bind (attr l ''type'') (\<lambda>t. attr t ''outward''))
                @ '' '' @ stub_text p)
      | None \<Rightarrow>
          (case attr l ''inwardIssue'' of
             Some p \<Rightarrow>
               Some (''inward: ''
                     @ text_or ''is related to by''
                         (Option.bind (attr l ''type'') (\<lambda>t. attr t ''inward''))
                     @ '' '' @ stub_text p)
           | None \<Rightarrow> None))"

text \<open>
  A work-log entry: an object whose author, when present, is an object whose display
  name, when present, is a string, and whose duration, when present, is an integer.
\<close>

definition worklog_entry :: "json \<Rightarrow> bool" where
  "worklog_entry e =
     (is_obj e
      \<and> (case attr e ''author'' of
            None \<Rightarrow> True
          | Some a \<Rightarrow> is_obj a \<and> (case attr a ''displayName'' of
                                     None \<Rightarrow> True | Some (JStr s) \<Rightarrow> True | Some _ \<Rightarrow> False))
      \<and> (case attr e ''timeSpentSeconds'' of
            None \<Rightarrow> True | Some (JInt n) \<Rightarrow> True | Some _ \<Rightarrow> False))"

definition entry_author :: "json \<Rightarrow> string" where
  "entry_author e =
     (case Option.bind (attr e ''author'') (\<lambda>a. attr a ''displayName'') of
        Some (JStr s) \<Rightarrow> s
      | _ \<Rightarrow> ''Inconnu'')"

definition entry_seconds :: "json \<Rightarrow> int" where
  "entry_seconds e = (case attr e ''timeSpentSeconds'' of Some (JInt n) \<Rightarrow> n | _ \<Rightarrow> 0)"

text \<open>The seconds logged by one author in a list of entries.\<close>

definition seconds_of :: "string \<Rightarrow> json list \<Rightarrow> int" where
  "seconds_of a es = sum_list (map entry_seconds (filter (\<lambda>e. entry_author e = a) es))"

text \<open>
  Two facts about the accumulator of the first loop: every key is a string, and the
  total held for an author (0 when the author has no key).
\<close>

definition str_keys :: "(json \<times> int) list \<Rightarrow> bool" where
  "str_keys acc = (\<forall>k \<in> fst ` set acc. \<exists>b. k = JStr b)"

definition held :: "(json \<times> int) list \<Rightarrow> string \<Rightarrow> int" where
  "held acc a = (case map_of acc (JStr a) of None \<Rightarrow> 0 | Some v \<Rightarrow> v)"














text \<open>
  The pagination contract in the words of the specification: the target count, the
  \<open>k\<close>-th page request of a run towards a target, a request that fails, a run whose
  successful pages hold exactly the number of records asked for, and a run in which no
  page request fails. The last two speak of the requests of the run only: the \<open>k\<close>-th
  page request is the request number \<open>k + 1\<close>, after the count probe.
\<close>

definition target :: "int option \<Rightarrow> int \<Rightarrow> int" where
  "target max_issues total_available =
     (case max_issues of None \<Rightarrow> total_available | Some m \<Rightarrow> min m total_available)"

definition page_request_at :: "int \<Rightarrow> nat \<Rightarrow> request" where
  "page_request_at T k = PageRequest (100 * int k) (min 100 (T - 100 * int k))"

fun request_failed :: "http_outcome \<Rightarrow> bool" where
  "request_failed TransportError = True"
| "request_failed (Response status_code body) = (status_code \<noteq> 200)"

definition exact_run :: "server \<Rightarrow> int \<Rightarrow> bool" where
  "exact_run srv T =
     (\<forall>k items. 100 * int k < T \<longrightarrow>
        page_items (srv (Suc k) (page_request_at T k)) = Some items \<longrightarrow>
        int (length items) = min 100 (T - 100 * int k))"

definition pages_succeed :: "server \<Rightarrow> int \<Rightarrow> bool" where
  "pages_succeed srv T =
     (\<forall>k. 100 * int k < T \<longrightarrow> page_items (srv (Suc k) (page_request_at T k)) \<noteq> None)"

text \<open>
  Two servers for runs on concrete input. The first holds \<open>N\<close> issues: it reports
  that total and answers a page request with the records from its offset on, as many as
  it asks for and no more than there are. The second reports 250 issues and sends 100
  records at offset 0, 20 records at offset 100, and status 500 at any other offset.
\<close>

definition finite_server :: "int \<Rightarrow> server" where
  "finite_server N n req =
     (case req of
        CountProbe \<Rightarrow> Response 200 (Some (JObj [(''total'', JInt N)]))
      | PageRequest s m \<Rightarrow>
          Response 200
            (Some (JObj [(''issues'', JList (replicate (nat (min m (N - s))) (JObj [])))])))"

definition failing_server :: server where
  "failing_server n req =
     (case req of
        CountProbe \<Rightarrow> Response 200 (Some (JObj [(''total'', JInt 250)]))
      | PageRequest s m \<Rightarrow>
          if s = 0 then Response 200 (Some (JObj [(''issues'', JList (replicate 100 (JObj [])))]))
          else if s = 100 then
            Response 200 (Some (JObj [(''issues'', JList (replicate 20 (JObj [])))]))
          else Response 500 None)"

section \<open>Properties\<close>

subsection \<open>Decimal rendering\<close>

lemma nat_of_digits_snoc: "nat_of_digits (s @ [c]) = 10 * nat_of_digits s + digit_val c"
  by (simp add: nat_of_digits_def)

lemma digit_val_char_of: "d < 10 \<Longrightarrow> digit_val (char_of (48 + d)) = d"
  by (simp add: digit_val_def)

lemma nat_of_digits_str_nat: "nat_of_digits (str_nat n) = n"
proof (induction n rule: str_nat.induct)
  case (1 n)
  show ?case
  proof (cases "n < 10")
    case True
    then show ?thesis
      by (subst str_nat.simps) (simp add: nat_of_digits_def digit_val_char_of)
  next
    case False
    then show ?thesis
      using 1 by (subst str_nat.simps) (simp add: nat_of_digits_snoc digit_val_char_of)
  qed
qed

subsection \<open>Duration formatting\<close>

lemma minutes_below_60: "(s::int) mod 3600 div 60 < 60"
proof -
  have "s mod 3600 < 3600" by simp
  then show ?thesis by linarith
qed

lemma hm_lower: "3600 * ((s::int) div 3600) + 60 * (s mod 3600 div 60) \<le> s"
proof -
  have "s mod 3600 = 60 * (s mod 3600 div 60) + s mod 3600 mod 60" by simp
  moreover have "0 \<le> s mod 3600 mod 60" by simp
  ultimately have "60 * (s mod 3600 div 60) \<le> s mod 3600" by linarith
  moreover have "3600 * (s div 3600) + s mod 3600 = s" by simp
  ultimately show ?thesis by linarith
qed

lemma hm_upper: "(s::int) < 3600 * (s div 3600) + 60 * (s mod 3600 div 60) + 60"
proof -
  have "s mod 3600 = 60 * (s mod 3600 div 60) + s mod 3600 mod 60" by simp
  moreover have "s mod 3600 mod 60 < 60" by simp
  ultimately have "s mod 3600 < 60 * (s mod 3600 div 60) + 60" by linarith
  moreover have "3600 * (s div 3600) + s mod 3600 = s" by simp
  ultimately show ?thesis by linarith
qed

text \<open>
  Claim C4. For a nonnegative number of seconds \<open>s\<close>, \<^verbatim>\<open>convert_seconds_to_hm\<close>
  returns the decimal numeral of \<open>s div 3600\<close>, then \<open>h\<close> and a blank, then the
  decimal numeral of \<open>(s mod 3600) div 60\<close>, then \<open>m\<close>. The minutes are below 60 and
  the seconds of the last, unfinished minute are dropped without rounding. At 0, 3661 and
  59 seconds the results are \<open>0h 0m\<close>, \<open>1h 1m\<close> and \<open>0h 0m\<close>.
\<close>

theorem convert_seconds_to_hm_format:
  fixes s :: int
  assumes "0 \<le> s"
  shows "convert_seconds_to_hm s
           = str_nat (nat (s div 3600)) @ ''h '' @ str_nat (nat (s mod 3600 div 60)) @ ''m''
         \<and> int (nat_of_digits (str_nat (nat (s div 3600)))) = s div 3600
         \<and> int (nat_of_digits (str_nat (nat (s mod 3600 div 60)))) = s mod 3600 div 60
         \<and> s mod 3600 div 60 < 60
         \<and> 3600 * (s div 3600) + 60 * (s mod 3600 div 60) \<le> s
         \<and> s < 3600 * (s div 3600) + 60 * (s mod 3600 div 60) + 60
         \<and> convert_seconds_to_hm 0 = ''0h 0m''
         \<and> convert_seconds_to_hm 3661 = ''1h 1m''
         \<and> convert_seconds_to_hm 59 = ''0h 0m''"
proof -
  have h: "0 \<le> s div 3600" and m: "0 \<le> s mod 3600 div 60"
    using assms by (simp_all add: pos_imp_zdiv_nonneg_iff)
  have fmt: "convert_seconds_to_hm s
           = str_nat (nat (s div 3600)) @ ''h '' @ str_nat (nat (s mod 3600 div 60)) @ ''m''"
    using h m by (simp add: convert_seconds_to_hm_def str_int_def Let_def)
  have e0: "convert_seconds_to_hm 0 = ''0h 0m''" by code_simp
  have e1: "convert_seconds_to_hm 3661 = ''1h 1m''" by code_simp
  have e2: "convert_seconds_to_hm 59 = ''0h 0m''" by code_simp
  have d1: "int (nat_of_digits (str_nat (nat (s div 3600)))) = s div 3600"
    using h by (simp add: nat_of_digits_str_nat)
  have d2: "int (nat_of_digits (str_nat (nat (s mod 3600 div 60)))) = s mod 3600 div 60"
    using m by (simp add: nat_of_digits_str_nat)
  from fmt d1 d2 minutes_below_60 [of s] hm_lower [of s] hm_upper [of s] e0 e1 e2
  show ?thesis by blast
qed

theorem convert_seconds_to_hm_format_witness:
  "(0::int) \<le> 7384 \<and> convert_seconds_to_hm 7384 = ''2h 3m''"
proof -
  have "str_nat 2 = ''2''" "str_nat 3 = ''3''" by code_simp+
  then show ?thesis
    using convert_seconds_to_hm_format [of 7384] by simp
qed

subsection \<open>Sequencing and joins\<close>

lemma bnd_Inr [simp]: "bnd (Inr v) f = f v"
  by (simp add: bnd_def)

lemma bnd_Inl [simp]: "bnd (Inl e) f = Inl e"
  by (simp add: bnd_def)

lemma py_get_obj: "is_obj v \<Longrightarrow> py_get v k d = Inr (case attr v k of None \<Rightarrow> d | Some x \<Rightarrow> x)"
  by (cases v) simp_all

lemma py_strs_JStr: "py_strs (map JStr ss) = Inr ss"
  by (induction ss) simp_all

lemma py_join_JStr: "py_join sep (map JStr ss) = Inr (join_strs sep ss)"
  by (simp add: py_join_def py_strs_JStr)

lemma version_names:
  "\<forall>x \<in> set vs. version_entry x \<Longrightarrow>
   py_map (\<lambda>version. py_get version ''name'' (JStr ''Unknown'')) vs
     = Inr (map JStr (map version_label vs))"
proof (induction vs)
  case Nil
  then show ?case by simp
next
  case (Cons v vs)
  from Cons.prems have v: "version_entry v" by simp
  then have "py_get v ''name'' (JStr ''Unknown'') = Inr (JStr (version_label v))"
    by (auto simp: version_entry_def version_label_def text_or_def py_get_obj
             split: option.splits json.splits)
  with Cons show ?case by simp
qed

lemma process_fix_versions_shaped:
  assumes "\<forall>x \<in> set vs. version_entry x"
  shows "process_fix_versions (JList vs) = Inr (join_strs '', '' (map version_label vs))"
proof (cases vs)
  case Nil
  then show ?thesis by (simp add: process_fix_versions_def)
next
  case (Cons a list)
  then have "process_fix_versions (JList vs)
      = bnd (py_map (\<lambda>version. py_get version ''name'' (JStr ''Unknown'')) vs) (py_join '', '')"
    by (simp add: process_fix_versions_def)
  also have "\<dots> = py_join '', '' (map JStr (map version_label vs))"
    by (simp only: version_names [OF assms] bnd_Inr)
  also have "\<dots> = Inr (join_strs '', '' (map version_label vs))"
    by (rule py_join_JStr)
  finally show ?thesis .
qed

lemma versions_same: "process__versions v = process_fix_versions v"
  by (simp add: process__versions_def process_fix_versions_def)

text \<open>
  Claim C9. \<^verbatim>\<open>process__versions\<close> and \<^verbatim>\<open>process_fix_versions\<close> return the same
  result on every input. On an absent or empty list the result is the empty string; on
  a list of version entries it is the names joined by a comma and a blank, with
  \<open>Unknown\<close> for an entry without a name.
\<close>

theorem versions_formatted_alike:
  "process__versions v = process_fix_versions v
   \<and> process_fix_versions JNull = Inr []
   \<and> process_fix_versions (JList []) = Inr []
   \<and> (list_all version_entry vs \<longrightarrow>
        process_fix_versions (JList vs) = Inr (join_strs '', '' (map version_label vs))
        \<and> process__versions (JList vs) = Inr (join_strs '', '' (map version_label vs)))"
  using process_fix_versions_shaped [of vs]
  by (simp add: versions_same list_all_iff) (simp add: process_fix_versions_def)

theorem versions_formatted_alike_witness:
  "list_all version_entry
     [JObj [(''id'', JInt 7), (''name'', JStr ''1.0'')], JObj [(''id'', JInt 8)]]
   \<and> process__versions
        (JList [JObj [(''id'', JInt 7), (''name'', JStr ''1.0'')], JObj [(''id'', JInt 8)]])
       = Inr ''1.0, Unknown''"
  using versions_formatted_alike
    [of "JList []" "[JObj [(''id'', JInt 7), (''name'', JStr ''1.0'')], JObj [(''id'', JInt 8)]]"]
  by (simp add: version_entry_def version_label_def text_or_def)

subsection \<open>Entries of the expected shape\<close>

lemma py_contains_obj: "is_obj v \<Longrightarrow> py_contains k v = Inr (attr v k \<noteq> None)"
  by (cases v) (simp_all add: map_of_eq_None_iff)

lemma for_loop_append:
  "for_loop body (xs @ ys) s = bnd (for_loop body xs s) (for_loop body ys)"
proof (induction xs arbitrary: s)
  case Nil
  then show ?case by simp
next
  case (Cons x xs)
  then show ?case by (cases "body s x") simp_all
qed

lemma for_loop_collect:
  "\<forall>x \<in> set xs. f x = Inr (g x) \<Longrightarrow>
   for_loop (\<lambda>acc x. bnd (f x) (\<lambda>y. Inr (acc @ [y]))) xs acc = Inr (acc @ map g xs)"
  by (induction xs arbitrary: acc) simp_all

lemma for_loop_collect_some:
  "\<forall>x \<in> set xs. f x = Inr (g x) \<Longrightarrow>
   for_loop (\<lambda>acc x. bnd (f x) (\<lambda>r. case r of None \<Rightarrow> Inr acc | Some y \<Rightarrow> Inr (acc @ [y]))) xs acc
     = Inr (acc @ List.map_filter g xs)"
proof (induction xs arbitrary: acc)
  case Nil
  then show ?case by (simp add: List.map_filter_simps)
next
  case (Cons x xs)
  then show ?case by (cases "g x") (simp_all add: List.map_filter_simps)
qed

lemma format_comment_shaped:
  assumes "comment_entry c"
  shows "format_comment c = Inr (comment_text c)"
proof -
  from assms obtain kvs where c: "c = JObj kvs" by (cases c) (simp_all add: comment_entry_def)
  show ?thesis
  proof (cases "map_of kvs ''author''")
    case None
    then show ?thesis
      by (simp add: c format_comment_def comment_text_def text_or_def split: option.splits)
  next
    case (Some a)
    with assms c obtain avs where a: "a = JObj avs"
      by (cases a) (simp_all add: comment_entry_def obj_or_absent_def)
    with Some show ?thesis
      by (simp add: c format_comment_def comment_text_def text_or_def split: option.splits)
  qed
qed

lemma stub_status_shaped:
  assumes "stub_entry p"
  shows "\<exists>v. stub_status p = Inr v \<and>
     py_str v = text_or ''Unknown status''
                (Option.bind (Option.bind (attr p ''fields'') (\<lambda>f. attr f ''status''))
                   (\<lambda>s. attr s ''name''))"
proof -
  from assms have obj: "is_obj p" by (simp add: stub_entry_def)
  show ?thesis
  proof (cases "attr p ''fields''")
    case None
    then show ?thesis
      by (simp add: stub_status_def py_contains_obj [OF obj] text_or_def)
  next
    case (Some f)
    with assms have f: "is_obj f" and st: "obj_or_absent (attr f ''status'')"
      by (simp_all add: stub_entry_def)
    show ?thesis
    proof (cases "attr f ''status''")
      case None
      with Some show ?thesis
        by (simp add: stub_status_def py_contains_obj [OF obj] py_get_obj [OF obj]
              py_get_obj [OF f] text_or_def)
    next
      case (Some s)
      with st have s: "is_obj s" by (simp add: obj_or_absent_def)
      from Some \<open>attr p ''fields'' = Some f\<close> show ?thesis
        by (simp add: stub_status_def py_contains_obj [OF obj] py_get_obj [OF obj]
              py_get_obj [OF f] py_get_obj [OF s] text_or_def split: option.splits)
    qed
  qed
qed

lemma stub_summary_shaped:
  assumes "stub_entry p"
  shows "\<exists>v. stub_summary p = Inr v \<and>
     py_str v = text_or ''No summary'' (Option.bind (attr p ''fields'') (\<lambda>f. attr f ''summary''))"
proof -
  from assms have obj: "is_obj p" by (simp add: stub_entry_def)
  show ?thesis
  proof (cases "attr p ''fields''")
    case None
    then show ?thesis
      by (simp add: stub_summary_def py_contains_obj [OF obj] text_or_def)
  next
    case (Some f)
    with assms have f: "is_obj f" by (simp add: stub_entry_def)
    from Some show ?thesis
      by (simp add: stub_summary_def py_contains_obj [OF obj] py_get_obj [OF obj]
            py_get_obj [OF f] text_or_def split: option.splits)
  qed
qed

lemma py_get_text:
  "is_obj v \<Longrightarrow> \<exists>x. py_get v k (JStr d) = Inr x \<and> py_str x = text_or d (attr v k)"
  by (simp add: py_get_obj text_or_def split: option.splits)

lemma format_link_shaped:
  assumes "stub_entry p"
  shows "format_link direction relation p
           = Inr (direction @ '': '' @ py_str relation @ '' '' @ stub_text p)"
proof -
  from assms have obj: "is_obj p" by (simp add: stub_entry_def)
  from py_get_text [OF obj, of "''key''" "''Unknown''"]
  obtain key where k: "py_get p ''key'' (JStr ''Unknown'') = Inr key"
    "py_str key = text_or ''Unknown'' (attr p ''key'')" by blast
  from stub_status_shaped [OF assms] obtain status where s: "stub_status p = Inr status"
    "py_str status = text_or ''Unknown status''
                (Option.bind (Option.bind (attr p ''fields'') (\<lambda>f. attr f ''status''))
                   (\<lambda>s. attr s ''name''))" by blast
  from stub_summary_shaped [OF assms] obtain summary where m: "stub_summary p = Inr summary"
    "py_str summary = text_or ''No summary'' (Option.bind (attr p ''fields'') (\<lambda>f. attr f ''summary''))"
    by blast
  show ?thesis
    by (simp add: format_link_def stub_text_def k s m)
qed

lemma format_subtask_shaped:
  assumes "stub_entry p"
  shows "format_subtask p = Inr (stub_text p)"
proof -
  from assms have obj: "is_obj p" by (simp add: stub_entry_def)
  from py_get_text [OF obj, of "''key''" "''Unknown''"]
  obtain key where k: "py_get p ''key'' (JStr ''Unknown'') = Inr key"
    "py_str key = text_or ''Unknown'' (attr p ''key'')" by blast
  from stub_status_shaped [OF assms] obtain status where s: "stub_status p = Inr status"
    "py_str status = text_or ''Unknown status''
                (Option.bind (Option.bind (attr p ''fields'') (\<lambda>f. attr f ''status''))
                   (\<lambda>s. attr s ''name''))" by blast
  from stub_summary_shaped [OF assms] obtain summary where m: "stub_summary p = Inr summary"
    "py_str summary = text_or ''No summary'' (Option.bind (attr p ''fields'') (\<lambda>f. attr f ''summary''))"
    by blast
  show ?thesis
    by (simp add: format_subtask_def stub_text_def k s m)
qed

lemma relation_text:
  assumes "is_obj l" and "obj_or_absent (attr l ''type'')"
  shows "\<exists>r. bnd (py_get l ''type'' (JObj [])) (\<lambda>t. py_get t k (JStr d)) = Inr r
              \<and> py_str r = text_or d (Option.bind (attr l ''type'') (\<lambda>t. attr t k))"
proof (cases "attr l ''type''")
  case None
  then show ?thesis
    by (simp add: py_get_obj [OF assms(1)] text_or_def)
next
  case (Some t)
  with assms(2) have t: "is_obj t" by (simp add: obj_or_absent_def)
  from Some show ?thesis
    by (simp add: py_get_obj [OF assms(1)] py_get_obj [OF t] text_or_def split: option.splits)
qed

lemma bnd_assoc: "bnd (bnd m f) g = bnd m (\<lambda>x. bnd (f x) g)"
  by (cases m) simp_all

lemma link_line_shaped:
  assumes "link_entry l"
  shows "link_line l = Inr (link_text l)"
proof -
  from assms have obj: "is_obj l" by (simp add: link_entry_def)
  show ?thesis
  proof (cases "attr l ''outwardIssue''")
    case (Some p)
    with assms have ty: "obj_or_absent (attr l ''type'')" and p: "stub_entry p"
      by (simp_all add: link_entry_def)
    from relation_text [OF obj ty, of "''outward''" "''relates to''"]
    obtain r where r: "bnd (py_get l ''type'' (JObj [])) (\<lambda>t. py_get t ''outward'' (JStr ''relates to'')) = Inr r"
       "py_str r = text_or ''relates to'' (Option.bind (attr l ''type'') (\<lambda>t. attr t ''outward''))"
      by blast
    have "link_line l =
        bnd (bnd (py_get l ''type'' (JObj [])) (\<lambda>t. py_get t ''outward'' (JStr ''relates to'')))
          (\<lambda>relation. bnd (py_get l ''outwardIssue'' (JObj [])) (\<lambda>linked_issue.
             bnd (format_link ''outward'' relation linked_issue) (\<lambda>l. Inr (Some l))))"
      using Some by (simp add: link_line_def py_contains_obj [OF obj] bnd_assoc)
    also have "\<dots> = Inr (link_text l)"
      using Some
      by (simp only: r bnd_Inr) (simp add: r py_get_obj [OF obj] format_link_shaped [OF p] link_text_def)
    finally show ?thesis .
  next
    case None
    note out = None
    show ?thesis
    proof (cases "attr l ''inwardIssue''")
      case None
      with out show ?thesis
        by (simp add: link_line_def py_contains_obj [OF obj] link_text_def)
    next
      case (Some p)
      with assms out have ty: "obj_or_absent (attr l ''type'')" and p: "stub_entry p"
        by (simp_all add: link_entry_def)
      from relation_text [OF obj ty, of "''inward''" "''is related to by''"]
      obtain r where r: "bnd (py_get l ''type'' (JObj [])) (\<lambda>t. py_get t ''inward'' (JStr ''is related to by'')) = Inr r"
         "py_str r = text_or ''is related to by'' (Option.bind (attr l ''type'') (\<lambda>t. attr t ''inward''))"
        by blast
      have "link_line l =
          bnd (bnd (py_get l ''type'' (JObj [])) (\<lambda>t. py_get t ''inward'' (JStr ''is related to by'')))
            (\<lambda>relation. bnd (py_get l ''inwardIssue'' (JObj [])) (\<lambda>linked_issue.
               bnd (format_link ''inward'' relation linked_issue) (\<lambda>l. Inr (Some l))))"
        using Some out by (simp add: link_line_def py_contains_obj [OF obj] bnd_assoc)
      also have "\<dots> = Inr (link_text l)"
        using Some out
        by (simp only: r bnd_Inr) (simp add: r py_get_obj [OF obj] format_link_shaped [OF p] link_text_def)
      finally show ?thesis .
    qed
  qed
qed

subsection \<open>Field normalizers on input of the expected shape\<close>

lemma process_comments_falsy: "\<not> py_truthy cf \<Longrightarrow> process_comments cf = Inr []"
  by (simp add: process_comments_def)

lemma process_comments_absent:
  assumes "is_obj cf" and "attr cf ''comments'' = None"
  shows "process_comments cf = Inr []"
  using assms by (cases cf) (simp_all add: process_comments_def)

lemma process_comments_shaped:
  assumes "is_obj cf" and "attr cf ''comments'' = Some (JList cs)" and "list_all comment_entry cs"
  shows "process_comments cf = Inr (join_strs comment_separator (map comment_text cs))"
proof (cases "cs = []")
  case True
  with assms show ?thesis
    by (cases cf) (simp_all add: process_comments_def)
next
  case False
  from assms(3) have "\<forall>x \<in> set cs. format_comment x = Inr (comment_text x)"
    by (simp add: list_all_iff format_comment_shaped)
  then have loop: "for_loop (\<lambda>formatted_comments comment.
                 bnd (format_comment comment) (\<lambda>formatted_comment.
                 Inr (formatted_comments @ [formatted_comment]))) cs [] = Inr ([] @ map comment_text cs)"
    by (rule for_loop_collect)
  from assms(1,2) have t: "py_truthy cf" by (cases cf) auto
  from assms(1,2) False show ?thesis
    by (simp add: process_comments_def t py_get_obj loop del: for_loop.simps)
qed

lemma process_issue_links_falsy: "\<not> py_truthy x \<Longrightarrow> process_issue_links x = Inr []"
  by (simp add: process_issue_links_def)

lemma process_issue_links_shaped:
  assumes "list_all link_entry ls"
  shows "process_issue_links (JList ls) = Inr (join_strs [CHR 0x0A] (List.map_filter link_text ls))"
proof (cases "ls = []")
  case True
  then show ?thesis by (simp add: process_issue_links_def List.map_filter_simps)
next
  case False
  from assms have "\<forall>x \<in> set ls. link_line x = Inr (link_text x)"
    by (simp add: list_all_iff link_line_shaped)
  then have loop: "for_loop (\<lambda>formatted_links link.
               bnd (link_line link) (\<lambda>r.
                 case r of None \<Rightarrow> Inr formatted_links
                 | Some formatted_link \<Rightarrow> Inr (formatted_links @ [formatted_link]))) ls []
       = Inr ([] @ List.map_filter link_text ls)"
    by (rule for_loop_collect_some)
  from False show ?thesis
    by (simp add: process_issue_links_def loop del: for_loop.simps)
qed

lemma process_subtasks_falsy: "\<not> py_truthy x \<Longrightarrow> process_subtasks x = Inr []"
  by (simp add: process_subtasks_def)

lemma process_subtasks_shaped:
  assumes "list_all stub_entry ts"
  shows "process_subtasks (JList ts) = Inr (join_strs [CHR 0x0A] (map stub_text ts))"
proof (cases "ts = []")
  case True
  then show ?thesis by (simp add: process_subtasks_def)
next
  case False
  from assms have "\<forall>x \<in> set ts. format_subtask x = Inr (stub_text x)"
    by (simp add: list_all_iff format_subtask_shaped)
  then have loop: "for_loop (\<lambda>formatted_subtasks subtask.
               bnd (format_subtask subtask) (\<lambda>formatted_subtask.
               Inr (formatted_subtasks @ [formatted_subtask]))) ts [] = Inr ([] @ map stub_text ts)"
    by (rule for_loop_collect)
  from False show ?thesis
    by (simp add: process_subtasks_def loop del: for_loop.simps)
qed

lemma process_fix_versions_falsy: "\<not> py_truthy x \<Longrightarrow> process_fix_versions x = Inr []"
  by (simp add: process_fix_versions_def)

lemma link_skipped:
  assumes "is_obj l" and "attr l ''outwardIssue'' = None" and "attr l ''inwardIssue'' = None"
  shows "link_line l = Inr None"
  using assms by (simp add: link_line_def py_contains_obj)

lemma process_issue_links_drop:
  assumes "link_line l = Inr None"
  shows "process_issue_links (JList (xs @ l # ys)) = process_issue_links (JList (xs @ ys))"
proof -
  let ?body = "\<lambda>formatted_links link.
               bnd (link_line link) (\<lambda>r.
                 case r of None \<Rightarrow> Inr formatted_links
                 | Some formatted_link \<Rightarrow> Inr (formatted_links @ [formatted_link]))"
  have step: "for_loop ?body (l # ys) = for_loop ?body ys"
    using assms by (intro ext) simp
  have loop: "for_loop ?body (xs @ l # ys) [] = for_loop ?body (xs @ ys) []"
    by (simp only: for_loop_append step)
  show ?thesis
  proof (cases "xs @ ys = []")
    case True
    then show ?thesis
      using assms by (simp add: process_issue_links_def)
  next
    case False
    then show ?thesis
      by (simp add: process_issue_links_def loop del: for_loop.simps)
  qed
qed

subsection \<open>Comments\<close>

text \<open>
  Claim C6 gives, as its example, a comment whose author is the string \<open>Bob\<close>. On that
  comment \<^verbatim>\<open>process_comments\<close> raises: the author of a comment is read as a record
  that carries the display name, and a string has no such lookup.
\<close>

theorem comment_author_string_counterexample:
  "process_comments
     (JObj [(''comments'',
             JList [JObj [(''author'', JStr ''Bob''),
                          (''created'', JStr ''2024-01-01''),
                          (''body'', JStr ''hi'')]])])
     = Inl AttributeError"
  by (simp add: process_comments_def format_comment_def)

text \<open>
  Claim C6, as the code has it. \<^verbatim>\<open>process_comments\<close> returns the empty string when
  the comment field is absent or holds no comments. Otherwise, on comments that are
  records whose author is absent or a record, it returns one string
  \<open>[timestamp] author: body\<close> per comment, where the author is the display name of the
  author record, with the defaults \<open>Unknown date\<close>, \<open>Unknown\<close> and \<open>No content\<close>
  for absent attributes, joined by the separator line \<open>---\<close>. A single comment whose
  author record has the display name Bob, created 2024-01-01, with body \<open>hi\<close> gives
  \<open>[2024-01-01] Bob: hi\<close>.
\<close>

theorem process_comments_format:
  "process_comments JNull = Inr []
   \<and> (is_obj cf \<and> attr cf ''comments'' = None \<longrightarrow> process_comments cf = Inr [])
   \<and> (is_obj cf \<and> attr cf ''comments'' = Some (JList []) \<longrightarrow> process_comments cf = Inr [])
   \<and> (is_obj cf \<and> attr cf ''comments'' = Some (JList cs) \<and> list_all comment_entry cs \<longrightarrow>
        process_comments cf = Inr (join_strs ([CHR 0x0A] @ ''---'' @ [CHR 0x0A]) (map comment_text cs)))
   \<and> process_comments
        (JObj [(''comments'',
                JList [JObj [(''author'', JObj [(''displayName'', JStr ''Bob'')]),
                             (''created'', JStr ''2024-01-01''),
                             (''body'', JStr ''hi'')]])])
       = Inr ''[2024-01-01] Bob: hi''"
proof -
  have a: "process_comments JNull = Inr []"
    by (simp add: process_comments_falsy)
  have b: "is_obj cf \<and> attr cf ''comments'' = None \<longrightarrow> process_comments cf = Inr []"
    by (simp add: process_comments_absent)
  have c: "is_obj cf \<and> attr cf ''comments'' = Some (JList []) \<longrightarrow> process_comments cf = Inr []"
    using process_comments_shaped [of cf "[]"] by simp
  have d: "is_obj cf \<and> attr cf ''comments'' = Some (JList cs) \<and> list_all comment_entry cs \<longrightarrow>
        process_comments cf = Inr (join_strs ([CHR 0x0A] @ ''---'' @ [CHR 0x0A]) (map comment_text cs))"
    using process_comments_shaped [of cf cs] by (simp add: comment_separator_def)
  have e: "process_comments
        (JObj [(''comments'',
                JList [JObj [(''author'', JObj [(''displayName'', JStr ''Bob'')]),
                             (''created'', JStr ''2024-01-01''),
                             (''body'', JStr ''hi'')]])])
       = Inr ''[2024-01-01] Bob: hi''"
    by (simp add: process_comments_def format_comment_def)
  from a b c d e show ?thesis by blast
qed

theorem process_comments_format_witness:
  "is_obj (JObj [(''total'', JInt 2),
                 (''comments'', JList [JObj [(''author'', JObj [(''displayName'', JStr ''Ann'')]),
                                             (''body'', JStr ''ok'')],
                                       JObj [(''created'', JStr ''2024-02-03'')]])])
   \<and> list_all comment_entry [JObj [(''author'', JObj [(''displayName'', JStr ''Ann'')]),
                                             (''body'', JStr ''ok'')],
                                       JObj [(''created'', JStr ''2024-02-03'')]]
   \<and> process_comments
        (JObj [(''total'', JInt 2),
               (''comments'', JList [JObj [(''author'', JObj [(''displayName'', JStr ''Ann'')]),
                                           (''body'', JStr ''ok'')],
                                     JObj [(''created'', JStr ''2024-02-03'')]])])
      = Inr (''[Unknown date] Ann: ok'' @ [CHR 0x0A] @ ''---'' @ [CHR 0x0A]
             @ ''[2024-02-03] Unknown: No content'')"
  using process_comments_format
    [of "JObj [(''total'', JInt 2),
               (''comments'', JList [JObj [(''author'', JObj [(''displayName'', JStr ''Ann'')]),
                                           (''body'', JStr ''ok'')],
                                     JObj [(''created'', JStr ''2024-02-03'')]])]"
        "[JObj [(''author'', JObj [(''displayName'', JStr ''Ann'')]), (''body'', JStr ''ok'')],
          JObj [(''created'', JStr ''2024-02-03'')]]"]
  by (simp add: comment_entry_def obj_or_absent_def comment_text_def text_or_def)

subsection \<open>Issue links\<close>

text \<open>
  Claim C7. On a list of issue links \<^verbatim>\<open>process_issue_links\<close> returns one line
  \<open>direction: relation key [status] - summary\<close> per link that has an end-pointer,
  joined by line feeds, where the direction is \<open>outward\<close> or \<open>inward\<close> according
  to the end-pointer that is present. A link without end-pointer contributes nothing.
  A link with only the outward end and the relation \<open>blocks\<close> gives a line that
  starts with \<open>outward: blocks\<close> and a blank. The empty and the absent list give the
  empty string.
\<close>

theorem process_issue_links_format:
  "process_issue_links JNull = Inr []
   \<and> process_issue_links (JList []) = Inr []
   \<and> (list_all link_entry ls \<longrightarrow>
        process_issue_links (JList ls)
          = Inr (join_strs [CHR 0x0A] (List.map_filter link_text ls)))
   \<and> (link_entry l \<and> attr l ''outwardIssue'' = Some p \<and> attr l ''inwardIssue'' = None
        \<and> attr l ''type'' = Some t \<and> attr t ''outward'' = Some (JStr ''blocks'') \<longrightarrow>
        process_issue_links (JList [l]) = Inr (''outward: blocks '' @ stub_text p))
   \<and> (link_entry l \<and> attr l ''outwardIssue'' = None \<and> attr l ''inwardIssue'' = Some p \<longrightarrow>
        (\<exists>rest. process_issue_links (JList [l]) = Inr (''inward: '' @ rest)))
   \<and> (is_obj l \<and> attr l ''outwardIssue'' = None \<and> attr l ''inwardIssue'' = None \<longrightarrow>
        link_text l = None
        \<and> process_issue_links (JList (xs @ l # ys)) = process_issue_links (JList (xs @ ys)))"
proof -
  have a: "process_issue_links JNull = Inr []" "process_issue_links (JList []) = Inr []"
    by (simp_all add: process_issue_links_falsy)
  have b: "list_all link_entry ls \<longrightarrow>
        process_issue_links (JList ls)
          = Inr (join_strs [CHR 0x0A] (List.map_filter link_text ls))"
    using process_issue_links_shaped [of ls] by simp
  have c: "process_issue_links (JList [l]) = Inr (''outward: blocks '' @ stub_text p)"
    if "link_entry l" "attr l ''outwardIssue'' = Some p" "attr l ''inwardIssue'' = None"
       "attr l ''type'' = Some t" "attr t ''outward'' = Some (JStr ''blocks'')"
  proof -
    from that have "link_text l = Some (''outward: blocks '' @ stub_text p)"
      by (simp add: link_text_def text_or_def)
    with process_issue_links_shaped [of "[l]"] that(1) show ?thesis
      by (simp add: List.map_filter_simps)
  qed
  have d: "\<exists>rest. process_issue_links (JList [l]) = Inr (''inward: '' @ rest)"
    if "link_entry l" "attr l ''outwardIssue'' = None" "attr l ''inwardIssue'' = Some p"
  proof -
    from that have "\<exists>rest. link_text l = Some (''inward: '' @ rest)"
      by (simp add: link_text_def)
    with process_issue_links_shaped [of "[l]"] that(1) show ?thesis
      by (auto simp: List.map_filter_simps)
  qed
  have e: "link_text l = None
        \<and> process_issue_links (JList (xs @ l # ys)) = process_issue_links (JList (xs @ ys))"
    if "is_obj l" "attr l ''outwardIssue'' = None" "attr l ''inwardIssue'' = None"
    using that process_issue_links_drop [OF link_skipped [OF that]]
    by (simp add: link_text_def)
  from a b c d e show ?thesis by blast
qed


theorem process_issue_links_format_witness:
  "list_all link_entry
     [JObj [(''type'', JObj [(''outward'', JStr ''blocks''), (''inward'', JStr ''is blocked by'')]),
            (''outwardIssue'',
             JObj [(''key'', JStr ''P-2''),
                   (''fields'', JObj [(''summary'', JStr ''Fix''),
                                      (''status'', JObj [(''name'', JStr ''Open'')])])])],
      JObj [(''id'', JStr ''7'')],
      JObj [(''inwardIssue'', JObj [(''key'', JStr ''P-3'')])]]
   \<and> process_issue_links (JList
     [JObj [(''type'', JObj [(''outward'', JStr ''blocks''), (''inward'', JStr ''is blocked by'')]),
            (''outwardIssue'',
             JObj [(''key'', JStr ''P-2''),
                   (''fields'', JObj [(''summary'', JStr ''Fix''),
                                      (''status'', JObj [(''name'', JStr ''Open'')])])])],
      JObj [(''id'', JStr ''7'')],
      JObj [(''inwardIssue'', JObj [(''key'', JStr ''P-3'')])]])
     = Inr (''outward: blocks P-2 [Open] - Fix'' @ [CHR 0x0A]
            @ ''inward: is related to by P-3 [Unknown status] - No summary'')"
  using process_issue_links_format
    [of "[JObj [(''type'', JObj [(''outward'', JStr ''blocks''), (''inward'', JStr ''is blocked by'')]),
            (''outwardIssue'',
             JObj [(''key'', JStr ''P-2''),
                   (''fields'', JObj [(''summary'', JStr ''Fix''),
                                      (''status'', JObj [(''name'', JStr ''Open'')])])])],
      JObj [(''id'', JStr ''7'')],
      JObj [(''inwardIssue'', JObj [(''key'', JStr ''P-3'')])]]"]
  by (simp add: link_entry_def stub_entry_def obj_or_absent_def link_text_def stub_text_def
        text_or_def List.map_filter_simps)

lemma map_of_filter_other:
  "k \<noteq> k' \<Longrightarrow> map_of (filter (\<lambda>kv. fst kv \<noteq> k') kvs) k = map_of kvs k"
  by (induction kvs) auto

lemma link_line_outward_only:
  assumes "map_of kvs ''outwardIssue'' \<noteq> None"
  shows "link_line (JObj kvs) = link_line (JObj (filter (\<lambda>kv. fst kv \<noteq> ''inwardIssue'') kvs))"
proof -
  have m: "map_of (filter (\<lambda>kv. fst kv \<noteq> ''inwardIssue'') kvs) k = map_of kvs k"
    if "k \<noteq> ''inwardIssue''" for k
    using that by (rule map_of_filter_other)
  have "map_of (filter (\<lambda>kv. fst kv \<noteq> ''inwardIssue'') kvs) ''outwardIssue'' \<noteq> None"
    using assms by (simp add: m)
  then have "''outwardIssue'' \<in> fst ` set (filter (\<lambda>kv. fst kv \<noteq> ''inwardIssue'') kvs)"
    by (metis map_of_eq_None_iff)
  moreover have "''outwardIssue'' \<in> fst ` set kvs"
    using assms by (metis map_of_eq_None_iff)
  ultimately have o: "py_contains ''outwardIssue'' (JObj kvs) = Inr True"
    "py_contains ''outwardIssue'' (JObj (filter (\<lambda>kv. fst kv \<noteq> ''inwardIssue'') kvs)) = Inr True"
    by (simp_all del: set_filter)
  show ?thesis
    by (simp add: link_line_def o m del: py_contains.simps)
qed

text \<open>
  Claim C10. A link that has both end-pointers is formatted as outward: the relation is
  the outward name of the link type, the issue is the outward end, the link contributes
  exactly one line, and the line is the one the same link without its inward end gives.
\<close>

theorem outward_takes_precedence:
  assumes "map_of kvs ''outwardIssue'' = Some p"
    and "map_of kvs ''inwardIssue'' = Some q"
    and "link_entry (JObj kvs)"
  shows "link_line (JObj kvs)
           = Inr (Some (''outward: ''
                        @ text_or ''relates to''
                            (Option.bind (map_of kvs ''type'') (\<lambda>t. attr t ''outward''))
                        @ '' '' @ stub_text p))
         \<and> process_issue_links (JList [JObj kvs])
           = Inr (''outward: ''
                  @ text_or ''relates to''
                      (Option.bind (map_of kvs ''type'') (\<lambda>t. attr t ''outward''))
                  @ '' '' @ stub_text p)
         \<and> link_line (JObj kvs)
           = link_line (JObj (filter (\<lambda>kv. fst kv \<noteq> ''inwardIssue'') kvs))"
proof -
  have t: "link_text (JObj kvs)
             = Some (''outward: ''
                        @ text_or ''relates to''
                            (Option.bind (map_of kvs ''type'') (\<lambda>t. attr t ''outward''))
                        @ '' '' @ stub_text p)"
    using assms(1) by (simp add: link_text_def)
  have a: "link_line (JObj kvs) = Inr (link_text (JObj kvs))"
    using assms(3) by (rule link_line_shaped)
  have b: "process_issue_links (JList [JObj kvs])
             = Inr (join_strs [CHR 0x0A] (List.map_filter link_text [JObj kvs]))"
    using process_issue_links_shaped [of "[JObj kvs]"] assms(3) by simp
  have c: "link_line (JObj kvs)
           = link_line (JObj (filter (\<lambda>kv. fst kv \<noteq> ''inwardIssue'') kvs))"
    using assms(1) by (intro link_line_outward_only) simp
  from a b c show ?thesis
    by (simp only: t List.map_filter_simps option.case join_strs.simps)
qed

theorem outward_takes_precedence_witness:
  "map_of [(''type'', JObj [(''outward'', JStr ''duplicates''), (''inward'', JStr ''is duplicated by'')]),
           (''inwardIssue'', JObj [(''key'', JStr ''P-1'')]),
           (''outwardIssue'', JObj [(''key'', JStr ''P-2'')])] ''outwardIssue''
     = Some (JObj [(''key'', JStr ''P-2'')])
   \<and> map_of [(''type'', JObj [(''outward'', JStr ''duplicates''), (''inward'', JStr ''is duplicated by'')]),
           (''inwardIssue'', JObj [(''key'', JStr ''P-1'')]),
           (''outwardIssue'', JObj [(''key'', JStr ''P-2'')])] ''inwardIssue''
     = Some (JObj [(''key'', JStr ''P-1'')])
   \<and> process_issue_links (JList [JObj
          [(''type'', JObj [(''outward'', JStr ''duplicates''), (''inward'', JStr ''is duplicated by'')]),
           (''inwardIssue'', JObj [(''key'', JStr ''P-1'')]),
           (''outwardIssue'', JObj [(''key'', JStr ''P-2'')])]])
     = Inr ''outward: duplicates P-2 [Unknown status] - No summary''"
  using outward_takes_precedence
    [of "[(''type'', JObj [(''outward'', JStr ''duplicates''), (''inward'', JStr ''is duplicated by'')]),
           (''inwardIssue'', JObj [(''key'', JStr ''P-1'')]),
           (''outwardIssue'', JObj [(''key'', JStr ''P-2'')])]"
        "JObj [(''key'', JStr ''P-2'')]" "JObj [(''key'', JStr ''P-1'')]"]
  by (simp add: link_entry_def stub_entry_def obj_or_absent_def stub_text_def text_or_def)

subsection \<open>Totality of the field normalizers\<close>

lemma process_comments_returns:
  assumes "comment_field_shape cf"
  shows "\<exists>s. process_comments cf = Inr s"
proof -
  from assms have obj: "is_obj cf" by (simp add: comment_field_shape_def)
  show ?thesis
  proof (cases "attr cf ''comments''")
    case None
    with obj show ?thesis by (simp add: process_comments_absent)
  next
    case (Some c)
    with assms obtain cs where c: "c = JList cs" and cs: "list_all comment_entry cs"
      by (cases c) (simp_all add: comment_field_shape_def)
    from obj Some c cs show ?thesis
      by (simp add: process_comments_shaped)
  qed
qed

text \<open>
  Claim C5 says that no field normalizer ever raises, whatever the input. A comment whose
  author is a string instead of an object is an input on which \<^verbatim>\<open>process_comments\<close>
  raises: the lookup of the display name is a method call on the string.
\<close>

theorem normalizers_raise_counterexample:
  "process_comments (JObj [(''comments'', JList [JObj [(''author'', JStr ''Bob'')]])])
     = Inl AttributeError"
  by (simp add: process_comments_def format_comment_def)

text \<open>
  Claim C5, as the code has it. Every field normalizer returns the empty string on an
  absent or empty input, and returns a string on input of the expected shape: a comment
  field whose comments are objects with an author that is absent or an object, a list of
  links whose ends are issue stubs, a list of subtasks that are issue stubs, a list of
  version entries whose names are absent or strings.
\<close>

theorem normalizers_return_on_shaped_input:
  "(\<not> py_truthy x \<longrightarrow>
      process_comments x = Inr [] \<and> process_issue_links x = Inr []
      \<and> process_subtasks x = Inr [] \<and> process_fix_versions x = Inr []
      \<and> process__versions x = Inr [])
   \<and> (comment_field_shape cf \<longrightarrow> (\<exists>s. process_comments cf = Inr s))
   \<and> (list_all link_entry ls \<longrightarrow> (\<exists>s. process_issue_links (JList ls) = Inr s))
   \<and> (list_all stub_entry ts \<longrightarrow> (\<exists>s. process_subtasks (JList ts) = Inr s))
   \<and> (list_all version_entry vs \<longrightarrow>
        (\<exists>s. process_fix_versions (JList vs) = Inr s)
        \<and> (\<exists>s. process__versions (JList vs) = Inr s))"
proof -
  have a: "\<not> py_truthy x \<longrightarrow>
      process_comments x = Inr [] \<and> process_issue_links x = Inr []
      \<and> process_subtasks x = Inr [] \<and> process_fix_versions x = Inr []
      \<and> process__versions x = Inr []"
    by (simp add: process_comments_falsy process_issue_links_falsy process_subtasks_falsy
          process_fix_versions_falsy versions_same)
  have b: "comment_field_shape cf \<longrightarrow> (\<exists>s. process_comments cf = Inr s)"
    by (simp add: process_comments_returns)
  have c: "list_all link_entry ls \<longrightarrow> (\<exists>s. process_issue_links (JList ls) = Inr s)"
    by (simp add: process_issue_links_shaped)
  have d: "list_all stub_entry ts \<longrightarrow> (\<exists>s. process_subtasks (JList ts) = Inr s)"
    by (simp add: process_subtasks_shaped)
  have e: "list_all version_entry vs \<longrightarrow>
        (\<exists>s. process_fix_versions (JList vs) = Inr s)
        \<and> (\<exists>s. process__versions (JList vs) = Inr s)"
    by (simp add: process_fix_versions_shaped versions_same list_all_iff)
  from a b c d e show ?thesis by blast
qed

theorem normalizers_return_on_shaped_input_witness:
  "\<not> py_truthy JNull
   \<and> comment_field_shape (JObj [(''comments'', JList [JObj [(''body'', JStr ''hi'')]])])
   \<and> list_all link_entry [JObj [(''inwardIssue'', JObj [(''key'', JStr ''P-3'')])]]
   \<and> list_all stub_entry [JObj [(''key'', JStr ''P-4''), (''fields'', JObj [])]]
   \<and> list_all version_entry [JObj [(''name'', JStr ''2.1'')]]
   \<and> process_subtasks JNull = Inr []
   \<and> (\<exists>s. process_comments (JObj [(''comments'', JList [JObj [(''body'', JStr ''hi'')]])]) = Inr s)
   \<and> (\<exists>s. process_issue_links (JList [JObj [(''inwardIssue'', JObj [(''key'', JStr ''P-3'')])]]) = Inr s)
   \<and> (\<exists>s. process_subtasks (JList [JObj [(''key'', JStr ''P-4''), (''fields'', JObj [])]]) = Inr s)
   \<and> (\<exists>s. process__versions (JList [JObj [(''name'', JStr ''2.1'')]]) = Inr s)"
  using normalizers_return_on_shaped_input
    [of JNull "JObj [(''comments'', JList [JObj [(''body'', JStr ''hi'')]])]"
        "[JObj [(''inwardIssue'', JObj [(''key'', JStr ''P-3'')])]]"
        "[JObj [(''key'', JStr ''P-4''), (''fields'', JObj [])]]"
        "[JObj [(''name'', JStr ''2.1'')]]"]
  by (simp add: comment_field_shape_def comment_entry_def link_entry_def stub_entry_def
        version_entry_def obj_or_absent_def)

subsection \<open>Work-time aggregation\<close>

lemma dd_add_keys:
  "fst ` set (dd_add acc k t) = (if \<exists>k' \<in> fst ` set acc. py_key_eq k' k then fst ` set acc
                                  else insert k (fst ` set acc))"
  by (induction acc k t rule: dd_add.induct) auto

lemma add_entry_shaped:
  assumes "worklog_entry e"
  shows "add_entry acc e = Inr (dd_add acc (JStr (entry_author e)) (entry_seconds e))"
proof -
  from assms have obj: "is_obj e" by (simp add: worklog_entry_def)
  have secs: "\<exists>v. py_get e ''timeSpentSeconds'' (JInt 0) = Inr v \<and> py_number v = Some (entry_seconds e)"
    using assms
    by (auto simp: worklog_entry_def py_get_obj [OF obj] entry_seconds_def
             split: option.splits json.splits)
  have auth: "bnd (py_get e ''author'' (JObj [])) (\<lambda>a. py_get a ''displayName'' (JStr ''Inconnu''))
                = Inr (JStr (entry_author e))"
  proof (cases "attr e ''author''")
    case None
    then show ?thesis by (simp add: py_get_obj [OF obj] entry_author_def)
  next
    case (Some a)
    with assms have a: "is_obj a" by (simp add: worklog_entry_def)
    from Some assms show ?thesis
      by (auto simp: worklog_entry_def py_get_obj [OF obj] py_get_obj [OF a] entry_author_def
               split: option.splits json.splits)
  qed
  from secs obtain v where v: "py_get e ''timeSpentSeconds'' (JInt 0) = Inr v"
    "py_number v = Some (entry_seconds e)" by blast
  have "add_entry acc e =
     bnd (bnd (py_get e ''author'' (JObj [])) (\<lambda>a. py_get a ''displayName'' (JStr ''Inconnu'')))
      (\<lambda>author.
     bnd (py_get e ''timeSpentSeconds'' (JInt 0)) (\<lambda>time_spent_seconds.
       if \<not> py_hashable author then Inl TypeError
       else case py_number time_spent_seconds of
              None \<Rightarrow> Inl TypeError
            | Some t \<Rightarrow> Inr (dd_add acc author t)))"
    by (simp add: add_entry_def bnd_assoc)
  also have "\<dots> = Inr (dd_add acc (JStr (entry_author e)) (entry_seconds e))"
    by (simp only: auth bnd_Inr v) simp
  finally show ?thesis .
qed


lemma dd_add_str_dom:
  assumes "str_keys acc"
  shows "fst ` set (dd_add acc (JStr a) t) = insert (JStr a) (fst ` set acc)"
proof -
  have key: "py_key_eq k' (JStr a) = (k' = JStr a)" if "k' \<in> fst ` set acc" for k'
  proof -
    from assms that obtain b where "k' = JStr b" unfolding str_keys_def by blast
    then show ?thesis by simp
  qed
  have eq: "(\<exists>k' \<in> fst ` set acc. py_key_eq k' (JStr a)) = (JStr a \<in> fst ` set acc)"
  proof
    assume "\<exists>k' \<in> fst ` set acc. py_key_eq k' (JStr a)"
    then obtain k' where k': "k' \<in> fst ` set acc" "py_key_eq k' (JStr a)" ..
    from k'(2) key [OF k'(1)] have "k' = JStr a" by (simp only:)
    with k'(1) show "JStr a \<in> fst ` set acc" by (simp only:)
  next
    assume m: "JStr a \<in> fst ` set acc"
    have "py_key_eq (JStr a) (JStr a)" by simp
    with m show "\<exists>k' \<in> fst ` set acc. py_key_eq k' (JStr a)" ..
  qed
  have "fst ` set (dd_add acc (JStr a) t)
          = (if JStr a \<in> fst ` set acc then fst ` set acc else insert (JStr a) (fst ` set acc))"
    by (simp only: dd_add_keys eq)
  then show ?thesis
    by (cases "JStr a \<in> fst ` set acc") (simp_all only: if_True if_False insert_absorb)
qed

lemma dd_add_str_keys:
  assumes "str_keys acc"
  shows "str_keys (dd_add acc (JStr a) t)"
  unfolding str_keys_def
proof
  fix k
  assume "k \<in> fst ` set (dd_add acc (JStr a) t)"
  then have "k = JStr a \<or> k \<in> fst ` set acc"
    by (simp only: dd_add_str_dom [OF assms] insert_iff)
  then show "\<exists>b. k = JStr b"
  proof
    assume "k = JStr a"
    then show ?thesis ..
  next
    assume "k \<in> fst ` set acc"
    with assms show ?thesis unfolding str_keys_def ..
  qed
qed

lemma dd_add_str_distinct:
  "str_keys acc \<Longrightarrow> distinct (map fst acc) \<Longrightarrow> distinct (map fst (dd_add acc (JStr a) t))"
proof (induction acc)
  case Nil
  then show ?case by simp
next
  case (Cons kv acc)
  obtain k v where kv: "kv = (k, v)" by (cases kv)
  from Cons.prems(1) obtain c where k: "k = JStr c" by (auto simp: str_keys_def kv)
  from Cons.prems(1) have sk: "str_keys acc" by (simp add: str_keys_def)
  from Cons.prems(2) have d: "distinct (map fst acc)" and nk: "k \<notin> fst ` set acc"
    by (simp_all add: kv)
  show ?case
  proof (cases "c = a")
    case True
    with Cons.prems(2) show ?thesis by (simp add: kv k)
  next
    case False
    with Cons.IH [OF sk d] nk show ?thesis
      by (simp add: kv k dd_add_str_dom [OF sk])
  qed
qed

lemma dd_add_str_lookup:
  "str_keys acc \<Longrightarrow>
   map_of (dd_add acc (JStr a) t) (JStr b)
     = (if b = a then Some (held acc a + t) else map_of acc (JStr b))"
  by (induction acc) (auto simp: str_keys_def held_def)

lemma seconds_of_Cons:
  "seconds_of a (e # es) = (if entry_author e = a then entry_seconds e else 0) + seconds_of a es"
  by (simp add: seconds_of_def)

lemma loop_totals:
  assumes "list_all worklog_entry es" and "str_keys acc" and "distinct (map fst acc)"
  shows "\<exists>totals. for_loop add_entry es acc = Inr totals
           \<and> str_keys totals \<and> distinct (map fst totals)
           \<and> fst ` set totals = fst ` set acc \<union> (\<lambda>e. JStr (entry_author e)) ` set es
           \<and> (\<forall>a. JStr a \<in> fst ` set totals \<longrightarrow>
                  map_of totals (JStr a) = Some (held acc a + seconds_of a es))"
  using assms
proof (induction es arbitrary: acc)
  case Nil
  have "map_of acc (JStr a) = Some (held acc a)" if "JStr a \<in> fst ` set acc" for a
  proof -
    from that have "map_of acc (JStr a) \<noteq> None" by (simp add: map_of_eq_None_iff)
    then show ?thesis by (auto simp: held_def)
  qed
  with Nil show ?case by (simp add: seconds_of_def)
next
  case (Cons e es)
  let ?acc = "dd_add acc (JStr (entry_author e)) (entry_seconds e)"
  from Cons.prems(1) have e: "worklog_entry e" and es: "list_all worklog_entry es" by simp_all
  have sk: "str_keys ?acc" using Cons.prems(2) by (rule dd_add_str_keys)
  have di: "distinct (map fst ?acc)" using Cons.prems(2,3) by (rule dd_add_str_distinct)
  from Cons.IH [OF es sk di] obtain totals where
    t: "for_loop add_entry es ?acc = Inr totals" "str_keys totals" "distinct (map fst totals)"
       "fst ` set totals = fst ` set ?acc \<union> (\<lambda>e. JStr (entry_author e)) ` set es"
       "\<forall>a. JStr a \<in> fst ` set totals \<longrightarrow>
                  map_of totals (JStr a) = Some (held ?acc a + seconds_of a es)"
    by blast
  have h: "held ?acc a + seconds_of a es = held acc a + seconds_of a (e # es)" for a
    by (simp add: held_def dd_add_str_lookup [OF Cons.prems(2), unfolded held_def] seconds_of_Cons)
  have run: "for_loop add_entry (e # es) acc = Inr totals"
    by (simp add: add_entry_shaped [OF e] t(1))
  have dom: "fst ` set totals = fst ` set acc \<union> (\<lambda>e. JStr (entry_author e)) ` set (e # es)"
    by (simp add: t(4) dd_add_str_dom [OF Cons.prems(2)])
  from run t(2,3) dom t(5) h show ?case by simp
qed

lemma temps_par_collaborateur_shaped:
  assumes "list_all worklog_entry es"
  shows "\<exists>totals. temps_par_collaborateur (JList es) = Inr totals
           \<and> distinct (map fst totals)
           \<and> fst ` set totals = (\<lambda>e. JStr (entry_author e)) ` set es
           \<and> (\<forall>e \<in> set es. map_of totals (JStr (entry_author e))
                                = Some (seconds_of (entry_author e) es))"
proof -
  have "str_keys []" "distinct (map fst ([] :: (json \<times> int) list))"
    by (simp_all add: str_keys_def)
  from loop_totals [OF assms this] obtain totals where
    all: "for_loop add_entry es [] = Inr totals
           \<and> str_keys totals \<and> distinct (map fst totals)
           \<and> fst ` set totals = fst ` set ([] :: (json \<times> int) list) \<union> (\<lambda>e. JStr (entry_author e)) ` set es
           \<and> (\<forall>a. JStr a \<in> fst ` set totals \<longrightarrow>
                  map_of totals (JStr a) = Some (held [] a + seconds_of a es))" ..
  then have
    t: "for_loop add_entry es [] = Inr totals" "distinct (map fst totals)"
       "fst ` set totals = fst ` set ([] :: (json \<times> int) list) \<union> (\<lambda>e. JStr (entry_author e)) ` set es"
       "\<forall>a. JStr a \<in> fst ` set totals \<longrightarrow>
                  map_of totals (JStr a) = Some (held [] a + seconds_of a es)"
    by blast+
  have run: "temps_par_collaborateur (JList es) = Inr totals"
    by (simp add: temps_par_collaborateur_def t(1))
  have dom: "fst ` set totals = (\<lambda>e. JStr (entry_author e)) ` set es"
    using t(3) by simp
  have val: "map_of totals (JStr (entry_author e)) = Some (seconds_of (entry_author e) es)"
    if "e \<in> set es" for e
  proof -
    from that dom have "JStr (entry_author e) \<in> fst ` set totals" by blast
    with t(4) show ?thesis by (simp add: held_def)
  qed
  from run t(2) dom val show ?thesis by blast
qed

text \<open>
  Claim C3 names \<open>Unknown\<close> as the key of an entry without author display name. The
  first loop of \<^verbatim>\<open>calculer_temps_par_collaborateur\<close> files such an entry under
  \<open>Inconnu\<close>: on one entry of 60 seconds without author, the totals have that key
  and no other.
\<close>

theorem default_author_counterexample:
  "temps_par_collaborateur (JList [JObj [(''timeSpentSeconds'', JInt 60)]])
     = Inr [(JStr ''Inconnu'', 60)]"
  by (simp add: temps_par_collaborateur_def add_entry_def)

text \<open>
  Claim C3, as the code has it. On a list of work-log entries the first loop of
  \<^verbatim>\<open>calculer_temps_par_collaborateur\<close> adds the duration of every entry, 0 when it
  is absent, to the total of the entry's author display name, \<open>Inconnu\<close> when that
  is absent. The result has one key per author of the entries and holds, for each, the
  sum of the durations of that author's entries. On two entries of 1800 seconds by A
  and one of 60 seconds by B the whole function gives \<open>1h 0m\<close> for A and \<open>0h 1m\<close>
  for B.
\<close>

theorem durations_summed_by_author:
  "(list_all worklog_entry es \<longrightarrow>
      (\<exists>totals. temps_par_collaborateur (JList es) = Inr totals
         \<and> distinct (map fst totals)
         \<and> fst ` set totals = (\<lambda>e. JStr (entry_author e)) ` set es
         \<and> (\<forall>e \<in> set es. map_of totals (JStr (entry_author e))
                              = Some (seconds_of (entry_author e) es))))
   \<and> (Option.bind (attr e ''author'') (\<lambda>a. attr a ''displayName'') = None \<longrightarrow>
        entry_author e = ''Inconnu'')
   \<and> (attr e ''timeSpentSeconds'' = None \<longrightarrow> entry_seconds e = 0)
   \<and> calculer_temps_par_collaborateur
        (JList [JObj [(''author'', JObj [(''displayName'', JStr ''A'')]), (''timeSpentSeconds'', JInt 1800)],
                JObj [(''author'', JObj [(''displayName'', JStr ''A'')]), (''timeSpentSeconds'', JInt 1800)],
                JObj [(''author'', JObj [(''displayName'', JStr ''B'')]), (''timeSpentSeconds'', JInt 60)]])
       = Inr [(JStr ''A'', ''1h 0m''), (JStr ''B'', ''0h 1m'')]"
proof -
  have a: "list_all worklog_entry es \<longrightarrow>
      (\<exists>totals. temps_par_collaborateur (JList es) = Inr totals
         \<and> distinct (map fst totals)
         \<and> fst ` set totals = (\<lambda>e. JStr (entry_author e)) ` set es
         \<and> (\<forall>e \<in> set es. map_of totals (JStr (entry_author e))
                              = Some (seconds_of (entry_author e) es)))"
    using temps_par_collaborateur_shaped [of es] by blast
  have b: "Option.bind (attr e ''author'') (\<lambda>a. attr a ''displayName'') = None \<longrightarrow>
        entry_author e = ''Inconnu''"
    by (simp add: entry_author_def)
  have c: "attr e ''timeSpentSeconds'' = None \<longrightarrow> entry_seconds e = 0"
    by (simp add: entry_seconds_def)
  have t: "temps_par_collaborateur
        (JList [JObj [(''author'', JObj [(''displayName'', JStr ''A'')]), (''timeSpentSeconds'', JInt 1800)],
                JObj [(''author'', JObj [(''displayName'', JStr ''A'')]), (''timeSpentSeconds'', JInt 1800)],
                JObj [(''author'', JObj [(''displayName'', JStr ''B'')]), (''timeSpentSeconds'', JInt 60)]])
       = Inr [(JStr ''A'', 3600), (JStr ''B'', 60)]"
    by (simp add: temps_par_collaborateur_def add_entry_def)
  have h: "convert_seconds_to_hm 3600 = ''1h 0m''" "convert_seconds_to_hm 60 = ''0h 1m''"
    by code_simp+
  have d: "calculer_temps_par_collaborateur
        (JList [JObj [(''author'', JObj [(''displayName'', JStr ''A'')]), (''timeSpentSeconds'', JInt 1800)],
                JObj [(''author'', JObj [(''displayName'', JStr ''A'')]), (''timeSpentSeconds'', JInt 1800)],
                JObj [(''author'', JObj [(''displayName'', JStr ''B'')]), (''timeSpentSeconds'', JInt 60)]])
       = Inr [(JStr ''A'', ''1h 0m''), (JStr ''B'', ''0h 1m'')]"
    unfolding calculer_temps_par_collaborateur_def t by (simp add: h)
  from a b c d show ?thesis by blast
qed

theorem durations_summed_by_author_witness:
  "list_all worklog_entry
     [JObj [(''author'', JObj [(''displayName'', JStr ''A'')]), (''timeSpentSeconds'', JInt 1800)],
      JObj [(''id'', JStr ''3'')],
      JObj [(''author'', JObj [(''displayName'', JStr ''A'')]), (''timeSpentSeconds'', JInt 10)]]
   \<and> (\<exists>totals. temps_par_collaborateur (JList
     [JObj [(''author'', JObj [(''displayName'', JStr ''A'')]), (''timeSpentSeconds'', JInt 1800)],
      JObj [(''id'', JStr ''3'')],
      JObj [(''author'', JObj [(''displayName'', JStr ''A'')]), (''timeSpentSeconds'', JInt 10)]])
        = Inr totals
      \<and> map_of totals (JStr ''A'') = Some 1810 \<and> map_of totals (JStr ''Inconnu'') = Some 0)"
  using durations_summed_by_author
    [of "[JObj [(''author'', JObj [(''displayName'', JStr ''A'')]), (''timeSpentSeconds'', JInt 1800)],
      JObj [(''id'', JStr ''3'')],
      JObj [(''author'', JObj [(''displayName'', JStr ''A'')]), (''timeSpentSeconds'', JInt 10)]]"
        "JObj []"]
  by (simp add: worklog_entry_def entry_author_def entry_seconds_def seconds_of_def
        temps_par_collaborateur_def add_entry_def)

subsection \<open>Record flattener\<close>

























subsection \<open>Pagination\<close>

lemma fetch_pages_exit:
  "\<not> int (length all_issues) < T \<Longrightarrow> fetch_pages srv T n s all_issues sent = (sent, all_issues)"
  by (subst fetch_pages.simps) simp

lemma fetch_pages_stop:
  "int (length all_issues) < T \<Longrightarrow> page_items (srv n (payload T s all_issues)) = None \<Longrightarrow>
   fetch_pages srv T n s all_issues sent = (sent @ [payload T s all_issues], all_issues)"
  by (subst fetch_pages.simps) simp

lemma fetch_pages_step:
  "int (length all_issues) < T \<Longrightarrow> page_items (srv n (payload T s all_issues)) = Some items \<Longrightarrow>
   fetch_pages srv T n s all_issues sent
     = fetch_pages srv T (Suc n) (s + int (length items)) (all_issues @ items)
         (sent @ [payload T s all_issues])"
  by (subst fetch_pages.simps) simp

lemma request_failed_no_items: "request_failed out \<Longrightarrow> page_items out = None"
  by (cases out) (simp_all add: page_items_def)

lemma fetch_pages_exact:
  shows "exact_run srv T \<Longrightarrow> start_at = 100 * int k \<Longrightarrow>
     int (length all_issues) = 100 * int k \<Longrightarrow> n = Suc k \<Longrightarrow>
     \<exists>K issues.
       fetch_pages srv T n start_at all_issues sent
         = (sent @ map (page_request_at T) [k..<K], issues)
       \<and> k \<le> K \<and> (K = k \<or> 100 * int (K - 1) < T)
       \<and> int (length issues) \<le> max T (100 * int k)
       \<and> ((T \<le> 100 * int K \<and> int (length issues) = max T (100 * int k))
          \<or> (k < K \<and> int (length issues) = 100 * int (K - 1)
              \<and> page_items (srv K (page_request_at T (K - 1))) = None))"
proof (induction srv T n start_at all_issues sent arbitrary: k rule: fetch_pages.induct)
  case (1 srv T n start_at all_issues sent)
  note ex = "1.prems"(1) and st = "1.prems"(2-4)
  have req: "payload T start_at all_issues = page_request_at T k"
    using st by (simp add: payload_def page_request_at_def)
  show ?case
  proof (cases "int (length all_issues) < T")
    case False
    then have "fetch_pages srv T n start_at all_issues sent
                 = (sent @ map (page_request_at T) [k..<k], all_issues)"
      by (simp add: fetch_pages_exit)
    moreover from False st have "T \<le> 100 * int k \<and> int (length all_issues) = max T (100 * int k)"
      by simp
    ultimately show ?thesis
      using st by (intro exI [of _ k] exI [of _ all_issues]) simp
  next
    case True
    show ?thesis
    proof (cases "page_items (srv n (payload T start_at all_issues))")
      case None
      with True have run: "fetch_pages srv T n start_at all_issues sent
                 = (sent @ map (page_request_at T) [k..<Suc k], all_issues)"
        by (simp add: fetch_pages_stop req)
      from None have "page_items (srv n (page_request_at T k)) = None"
        by (simp only: req)
      with st(3) have "page_items (srv (Suc k) (page_request_at T (Suc k - 1))) = None"
        by simp
      with run True st show ?thesis
        by (intro exI [of _ "Suc k"] exI [of _ all_issues]) simp
    next
      case (Some items)
      then have "page_items (srv n (page_request_at T k)) = Some items"
        by (simp only: req)
      with st(3) have got: "page_items (srv (Suc k) (page_request_at T k)) = Some items"
        by simp
      from True st(2) have lt: "100 * int k < T" by simp
      from ex [unfolded exact_run_def, rule_format, OF lt got]
      have len: "int (length items) = min 100 (T - 100 * int k)" .
      from True Some have step: "fetch_pages srv T n start_at all_issues sent
          = fetch_pages srv T (Suc n) (start_at + int (length items)) (all_issues @ items)
              (sent @ [page_request_at T k])"
        by (simp add: fetch_pages_step req)
      show ?thesis
      proof (cases "100 \<le> T - 100 * int k")
        case full: True
        with len have l100: "int (length items) = 100" by simp
        have "\<exists>K issues.
           fetch_pages srv T (Suc n) (start_at + int (length items)) (all_issues @ items)
               (sent @ [payload T start_at all_issues])
             = ((sent @ [payload T start_at all_issues]) @ map (page_request_at T) [Suc k..<K], issues)
           \<and> Suc k \<le> K \<and> (K = Suc k \<or> 100 * int (K - 1) < T)
           \<and> int (length issues) \<le> max T (100 * int (Suc k))
           \<and> ((T \<le> 100 * int K \<and> int (length issues) = max T (100 * int (Suc k)))
              \<or> (Suc k < K \<and> int (length issues) = 100 * int (K - 1)
                  \<and> page_items (srv K (page_request_at T (K - 1))) = None))"
          using True Some st l100 ex by (intro "1.IH") simp_all
        then obtain K issues where
          r: "fetch_pages srv T (Suc n) (start_at + int (length items)) (all_issues @ items)
               (sent @ [page_request_at T k])
             = ((sent @ [page_request_at T k]) @ map (page_request_at T) [Suc k..<K], issues)"
          and b: "Suc k \<le> K" "K = Suc k \<or> 100 * int (K - 1) < T"
             "int (length issues) \<le> max T (100 * int (Suc k))"
             "(T \<le> 100 * int K \<and> int (length issues) = max T (100 * int (Suc k)))
              \<or> (Suc k < K \<and> int (length issues) = 100 * int (K - 1)
                  \<and> page_items (srv K (page_request_at T (K - 1))) = None)"
          unfolding req by blast
        from b(1) have upt: "[k..<K] = k # [Suc k..<K]"
          by (simp add: upt_conv_Cons)
        from full have mx: "max T (100 * int (Suc k)) = T" "max T (100 * int k) = T"
          by simp_all
        have "fetch_pages srv T n start_at all_issues sent
                = (sent @ map (page_request_at T) [k..<K], issues)"
          by (simp add: step r upt)
        moreover have "k \<le> K" using b(1) by simp
        moreover have "K = k \<or> 100 * int (K - 1) < T"
          using b(2) True st by auto
        moreover have "int (length issues) \<le> max T (100 * int k)"
          using b(3) mx by simp
        moreover have "(T \<le> 100 * int K \<and> int (length issues) = max T (100 * int k))
              \<or> (k < K \<and> int (length issues) = 100 * int (K - 1)
                  \<and> page_items (srv K (page_request_at T (K - 1))) = None)"
          using b(4) mx by auto
        ultimately show ?thesis by blast
      next
        case last: False
        with len True st have lT: "int (length (all_issues @ items)) = T" by simp
        then have "fetch_pages srv T (Suc n) (start_at + int (length items)) (all_issues @ items)
              (sent @ [page_request_at T k])
            = (sent @ [page_request_at T k], all_issues @ items)"
          by (intro fetch_pages_exit) simp
        with step have run: "fetch_pages srv T n start_at all_issues sent
                = (sent @ map (page_request_at T) [k..<Suc k], all_issues @ items)"
          by simp
        from last True st have "T \<le> 100 * int (Suc k)" "max T (100 * int k) = T"
          by simp_all
        with run lT True st show ?thesis
          by (intro exI [of _ "Suc k"] exI [of _ "all_issues @ items"]) simp
      qed
    qed
  qed
qed

lemma fetch_jira_issues_probed:
  assumes "srv 0 CountProbe = Response 200 (Some data)"
    and "py_subscript data ''total'' = Inr (JInt total_available)"
  shows "fetch_jira_issues srv max_issues
           = (fst (fetch_pages srv (target max_issues total_available) 1 0 [] [CountProbe]),
              Inr (snd (fetch_pages srv (target max_issues total_available) 1 0 [] [CountProbe])))"
  using assms
  by (cases max_issues) (simp_all add: fetch_jira_issues_def target_def split: prod.splits)

lemma run_exact:
  assumes "srv 0 CountProbe = Response 200 (Some data)"
    and "py_subscript data ''total'' = Inr (JInt total_available)"
    and "exact_run srv (target max_issues total_available)"
  shows "\<exists>K issues.
       fetch_jira_issues srv max_issues
         = (CountProbe # map (page_request_at (target max_issues total_available)) [0..<K], Inr issues)
       \<and> (K = 0 \<or> 100 * int (K - 1) < target max_issues total_available)
       \<and> int (length issues) \<le> max (target max_issues total_available) 0
       \<and> ((target max_issues total_available \<le> 100 * int K
            \<and> int (length issues) = max (target max_issues total_available) 0)
          \<or> (0 < K \<and> int (length issues) = 100 * int (K - 1)
              \<and> page_items (srv K (page_request_at (target max_issues total_available) (K - 1))) = None))"
proof -
  let ?T = "target max_issues total_available"
  from fetch_pages_exact
         [where srv = srv and T = ?T and k = 0 and start_at = 0 and all_issues = "[]"
            and n = 1 and sent = "[CountProbe]"]
       assms(3)
  obtain K issues where
    r: "fetch_pages srv ?T 1 0 [] [CountProbe]
         = ([CountProbe] @ map (page_request_at ?T) [0..<K], issues)"
    and b: "K = 0 \<or> 100 * int (K - 1) < ?T"
      "int (length issues) \<le> max ?T (100 * int 0)"
      "(?T \<le> 100 * int K \<and> int (length issues) = max ?T (100 * int 0))
          \<or> (0 < K \<and> int (length issues) = 100 * int (K - 1)
              \<and> page_items (srv K (page_request_at ?T (K - 1))) = None)"
    by auto
  have "fetch_jira_issues srv max_issues
         = (CountProbe # map (page_request_at ?T) [0..<K], Inr issues)"
    using fetch_jira_issues_probed [of srv data total_available max_issues] assms(1,2)
    by (simp only: r fst_conv snd_conv append_Cons append_Nil)
  with b show ?thesis by auto
qed

lemma run_exact_complete:
  assumes "srv 0 CountProbe = Response 200 (Some data)"
    and "py_subscript data ''total'' = Inr (JInt total_available)"
    and "exact_run srv (target max_issues total_available)"
    and "pages_succeed srv (target max_issues total_available)"
  shows "\<exists>issues.
       fetch_jira_issues srv max_issues
         = (CountProbe # map (page_request_at (target max_issues total_available))
                           [0..<nat ((target max_issues total_available + 99) div 100)], Inr issues)
       \<and> int (length issues) = max (target max_issues total_available) 0"
proof -
  let ?T = "target max_issues total_available"
  from run_exact [OF assms(1-3)] obtain K issues where
    r: "fetch_jira_issues srv max_issues
         = (CountProbe # map (page_request_at ?T) [0..<K], Inr issues)"
    and b: "K = 0 \<or> 100 * int (K - 1) < ?T"
      "(?T \<le> 100 * int K \<and> int (length issues) = max ?T 0)
          \<or> (0 < K \<and> int (length issues) = 100 * int (K - 1)
              \<and> page_items (srv K (page_request_at ?T (K - 1))) = None)"
    by blast
  have ok: "page_items (srv K (page_request_at ?T (K - 1))) \<noteq> None"
    if "0 < K" "100 * int (K - 1) < ?T"
  proof -
    from assms(4) [unfolded pages_succeed_def, rule_format, OF that(2)]
    have "page_items (srv (Suc (K - 1)) (page_request_at ?T (K - 1))) \<noteq> None" .
    with that(1) show ?thesis by simp
  qed
  from b ok have c: "?T \<le> 100 * int K" "int (length issues) = max ?T 0"
    by auto
  have "K = nat ((?T + 99) div 100)"
  proof (cases K)
    case 0
    with c(1) have "?T + 99 \<le> 99" by simp
    from zdiv_mono1 [OF this, of 100] have "(?T + 99) div 100 \<le> 0" by simp
    with 0 show ?thesis by simp
  next
    case (Suc j)
    with b(1) c(1) have "100 * int j < ?T" "?T \<le> 100 * int j + 100" by simp_all
    then have "(?T + 99) div 100 = int j + 1"
      by (intro int_div_pos_eq [of _ _ _ "?T + 99 - 100 * (int j + 1)"]) simp_all
    with Suc show ?thesis by simp
  qed
  with r c(2) show ?thesis by blast
qed

lemma finite_server_items:
  "page_items (finite_server N n (PageRequest s m))
     = (if nat (min m (N - s)) = 0 then None
        else Some (replicate (nat (min m (N - s))) (JObj [])))"
  by (simp add: finite_server_def page_items_def)

lemma finite_server_exact:
  assumes "T \<le> N"
  shows "exact_run (finite_server N) T"
  unfolding exact_run_def
proof (intro allI impI)
  fix k items
  assume lt: "100 * int k < T"
    and got: "page_items (finite_server N (Suc k) (page_request_at T k)) = Some items"
  from lt assms have m: "min (min 100 (T - 100 * int k)) (N - 100 * int k)
                          = min 100 (T - 100 * int k)"
    by simp
  from got have "length items = nat (min 100 (T - 100 * int k))"
    by (auto simp: page_request_at_def finite_server_items m split: if_splits)
  with lt show "int (length items) = min 100 (T - 100 * int k)" by simp
qed

lemma finite_server_succeeds:
  assumes "T \<le> N"
  shows "pages_succeed (finite_server N) T"
  unfolding pages_succeed_def
proof (intro allI impI)
  fix k
  assume lt: "100 * int k < T"
  with assms have "min (min 100 (T - 100 * int k)) (N - 100 * int k)
                     = min 100 (T - 100 * int k)"
    by simp
  with lt show "page_items (finite_server N (Suc k) (page_request_at T k)) \<noteq> None"
    by (simp add: page_request_at_def finite_server_items)
qed

text \<open>
  Claim C2. In a run in which every successful page holds exactly the number of records
  asked for, the target count is the reported total, or the smaller of the maximum and
  the reported total when a maximum is given; the \<open>k\<close>-th page request has
  \<^verbatim>\<open>startAt\<close> \<open>100 * k\<close> and asks for 100 records or for what is missing to the target,
  whichever is less; the accumulated count never exceeds the target; the run ends when
  the target is reached or at the first page that fails or is empty. When no page request
  of the run fails, the number of page requests is the target divided by 100, rounded
  up. With a reported total of 250 and no maximum the page requests are (0, 100),
  (100, 100) and (200, 50). A page without records ends the loop.
\<close>

theorem pagination_requests:
  "(srv 0 CountProbe = Response 200 (Some data)
      \<and> py_subscript data ''total'' = Inr (JInt total_available)
      \<and> exact_run srv (target max_issues total_available) \<longrightarrow>
     (\<exists>K issues.
        fetch_jira_issues srv max_issues
          = (CountProbe # map (page_request_at (target max_issues total_available)) [0..<K],
             Inr issues)
        \<and> (K = 0 \<or> 100 * int (K - 1) < target max_issues total_available)
        \<and> int (length issues) \<le> max (target max_issues total_available) 0
        \<and> ((target max_issues total_available \<le> 100 * int K
             \<and> int (length issues) = max (target max_issues total_available) 0)
           \<or> (0 < K \<and> int (length issues) = 100 * int (K - 1)
               \<and> page_items (srv K (page_request_at (target max_issues total_available) (K - 1)))
                   = None)))
     \<and> (pages_succeed srv (target max_issues total_available) \<longrightarrow>
          (\<exists>issues.
             fetch_jira_issues srv max_issues
               = (CountProbe # map (page_request_at (target max_issues total_available))
                    [0..<nat ((target max_issues total_available + 99) div 100)], Inr issues)
             \<and> int (length issues) = max (target max_issues total_available) 0)))
   \<and> (srv 0 CountProbe = Response 200 (Some data)
        \<and> py_subscript data ''total'' = Inr (JInt 250)
        \<and> exact_run srv 250 \<and> pages_succeed srv 250 \<longrightarrow>
        fst (fetch_jira_issues srv None)
          = [CountProbe, PageRequest 0 100, PageRequest 100 100, PageRequest 200 50]
        \<and> (\<exists>issues. snd (fetch_jira_issues srv None) = Inr issues \<and> length issues = 250))
   \<and> target None total_available = total_available
   \<and> target (Some m) total_available = min m total_available
   \<and> page_request_at T k = PageRequest (100 * int k) (min 100 (T - 100 * int k))
   \<and> page_items (Response 200 (Some (JObj [(''issues'', JList [])]))) = None
   \<and> (int (length all_issues) < T \<and> page_items (srv n (payload T s all_issues)) = None \<longrightarrow>
        fetch_pages srv T n s all_issues sent = (sent @ [payload T s all_issues], all_issues))"
proof -
  have a: "\<exists>K issues.
        fetch_jira_issues srv max_issues
          = (CountProbe # map (page_request_at (target max_issues total_available)) [0..<K],
             Inr issues)
        \<and> (K = 0 \<or> 100 * int (K - 1) < target max_issues total_available)
        \<and> int (length issues) \<le> max (target max_issues total_available) 0
        \<and> ((target max_issues total_available \<le> 100 * int K
             \<and> int (length issues) = max (target max_issues total_available) 0)
           \<or> (0 < K \<and> int (length issues) = 100 * int (K - 1)
               \<and> page_items (srv K (page_request_at (target max_issues total_available) (K - 1)))
                   = None))"
    if "srv 0 CountProbe = Response 200 (Some data)"
      "py_subscript data ''total'' = Inr (JInt total_available)"
      "exact_run srv (target max_issues total_available)"
    using that by (rule run_exact)
  have b: "\<exists>issues.
             fetch_jira_issues srv max_issues
               = (CountProbe # map (page_request_at (target max_issues total_available))
                    [0..<nat ((target max_issues total_available + 99) div 100)], Inr issues)
             \<and> int (length issues) = max (target max_issues total_available) 0"
    if "srv 0 CountProbe = Response 200 (Some data)"
      "py_subscript data ''total'' = Inr (JInt total_available)"
      "exact_run srv (target max_issues total_available)"
      "pages_succeed srv (target max_issues total_available)"
    using that by (rule run_exact_complete)
  have c: "fst (fetch_jira_issues srv None)
            = [CountProbe, PageRequest 0 100, PageRequest 100 100, PageRequest 200 50]
           \<and> (\<exists>issues. snd (fetch_jira_issues srv None) = Inr issues \<and> length issues = 250)"
    if p: "srv 0 CountProbe = Response 200 (Some data)"
      "py_subscript data ''total'' = Inr (JInt 250)"
      and x: "exact_run srv 250" and y: "pages_succeed srv 250"
  proof -
    have t: "target None 250 = 250" by (simp add: target_def)
    from x y have "exact_run srv (target None 250)" "pages_succeed srv (target None 250)"
      by (simp_all only: t)
    from run_exact_complete [OF p this]
    obtain issues where r: "fetch_jira_issues srv None
               = (CountProbe # map (page_request_at 250) [0..<nat ((250 + 99) div 100)], Inr issues)"
      and l: "int (length issues) = max 250 0"
      unfolding t by blast
    have "map (page_request_at 250) [0..<nat ((250 + 99) div 100)]
            = [PageRequest 0 100, PageRequest 100 100, PageRequest 200 50]"
      by code_simp
    with r have "fst (fetch_jira_issues srv None)
            = [CountProbe, PageRequest 0 100, PageRequest 100 100, PageRequest 200 50]"
      by simp
    moreover from r l have "snd (fetch_jira_issues srv None) = Inr issues \<and> length issues = 250"
      by simp
    ultimately show ?thesis by blast
  qed
  have d: "target None total_available = total_available"
    "target (Some m) total_available = min m total_available"
    by (simp_all add: target_def)
  have e: "page_request_at T k = PageRequest (100 * int k) (min 100 (T - 100 * int k))"
    by (simp add: page_request_at_def)
  have f: "page_items (Response 200 (Some (JObj [(''issues'', JList [])]))) = None"
    by (simp add: page_items_def)
  have g: "fetch_pages srv T n s all_issues sent = (sent @ [payload T s all_issues], all_issues)"
    if "int (length all_issues) < T" "page_items (srv n (payload T s all_issues)) = None"
    using that by (rule fetch_pages_stop)
  from a b c d e f g show ?thesis by blast
qed

theorem pagination_requests_witness:
  "finite_server 250 0 CountProbe = Response 200 (Some (JObj [(''total'', JInt 250)]))
   \<and> py_subscript (JObj [(''total'', JInt 250)]) ''total'' = Inr (JInt 250)
   \<and> exact_run (finite_server 250) 250 \<and> pages_succeed (finite_server 250) 250
   \<and> exact_run (finite_server 250) (target (Some 120) 250)
   \<and> pages_succeed (finite_server 250) (target (Some 120) 250)
   \<and> fst (fetch_jira_issues (finite_server 250) None)
        = [CountProbe, PageRequest 0 100, PageRequest 100 100, PageRequest 200 50]
   \<and> (\<exists>issues. snd (fetch_jira_issues (finite_server 250) None) = Inr issues
                 \<and> length issues = 250)
   \<and> (\<exists>issues. fetch_jira_issues (finite_server 250) (Some 120)
                   = ([CountProbe, PageRequest 0 100, PageRequest 100 20], Inr issues)
                 \<and> length issues = 120)"
proof -
  have p: "finite_server 250 0 CountProbe = Response 200 (Some (JObj [(''total'', JInt 250)]))"
    by (simp add: finite_server_def)
  have q: "py_subscript (JObj [(''total'', JInt 250)]) ''total'' = Inr (JInt 250)"
    by simp
  have x: "exact_run (finite_server 250) 250"
    by (rule finite_server_exact) simp
  have y: "pages_succeed (finite_server 250) 250"
    by (rule finite_server_succeeds) simp
  have t: "target (Some 120) 250 = 120" by (simp add: target_def)
  have x': "exact_run (finite_server 250) (target (Some 120) 250)"
    unfolding t by (rule finite_server_exact) simp
  have y': "pages_succeed (finite_server 250) (target (Some 120) 250)"
    unfolding t by (rule finite_server_succeeds) simp
  from pagination_requests
         [of "finite_server 250" "JObj [(''total'', JInt 250)]" 250 None]
       p q x y
  have l: "fst (fetch_jira_issues (finite_server 250) None)
             = [CountProbe, PageRequest 0 100, PageRequest 100 100, PageRequest 200 50]
           \<and> (\<exists>issues. snd (fetch_jira_issues (finite_server 250) None) = Inr issues
                 \<and> length issues = 250)"
    by blast
  from pagination_requests
         [of "finite_server 250" "JObj [(''total'', JInt 250)]" 250 "Some 120"]
       p q x' y'
  obtain issues where r: "fetch_jira_issues (finite_server 250) (Some 120)
               = (CountProbe # map (page_request_at (target (Some 120) 250))
                    [0..<nat ((target (Some 120) 250 + 99) div 100)], Inr issues)"
     "int (length issues) = max (target (Some 120) 250) 0"
    by blast
  have "map (page_request_at 120) [0..<nat ((120 + 99) div 100)]
          = [PageRequest 0 100, PageRequest 100 20]"
    by code_simp
  with r have "fetch_jira_issues (finite_server 250) (Some 120)
                   = ([CountProbe, PageRequest 0 100, PageRequest 100 20], Inr issues)
               \<and> length issues = 120"
    by (simp add: t)
  then have "\<exists>issues. fetch_jira_issues (finite_server 250) (Some 120)
                   = ([CountProbe, PageRequest 0 100, PageRequest 100 20], Inr issues)
                 \<and> length issues = 120" ..
  with p q x y x' y' l show ?thesis by blast
qed

lemma fetch_pages_partial:
  assumes "\<forall>i < length pages.
             page_items (srv (n + i)
               (payload T (s + int (length (concat (take i pages))))
                  (all_issues @ concat (take i pages)))) = Some (pages ! i)"
    and "int (length (all_issues @ concat pages)) < T"
    and "page_items (srv (n + length pages)
           (payload T (s + int (length (concat pages))) (all_issues @ concat pages))) = None"
  shows "snd (fetch_pages srv T n s all_issues sent) = all_issues @ concat pages"
  using assms
proof (induction pages arbitrary: n s all_issues sent)
  case Nil
  then show ?case by (simp add: fetch_pages_stop)
next
  case (Cons p ps)
  from Cons.prems(2) have lt: "int (length all_issues) < T" by simp
  from Cons.prems(1) have "page_items (srv (n + 0)
               (payload T (s + int (length (concat (take 0 (p # ps)))))
                  (all_issues @ concat (take 0 (p # ps))))) = Some ((p # ps) ! 0)"
    by blast
  then have first: "page_items (srv n (payload T s all_issues)) = Some p" by simp
  have rest: "\<forall>i < length ps.
             page_items (srv (Suc n + i)
               (payload T ((s + int (length p)) + int (length (concat (take i ps))))
                  ((all_issues @ p) @ concat (take i ps)))) = Some (ps ! i)"
  proof (intro allI impI)
    fix i
    assume "i < length ps"
    then have "Suc i < length (p # ps)" by simp
    with Cons.prems(1) have "page_items (srv (n + Suc i)
               (payload T (s + int (length (concat (take (Suc i) (p # ps)))))
                  (all_issues @ concat (take (Suc i) (p # ps))))) = Some ((p # ps) ! Suc i)"
      by blast
    then show "page_items (srv (Suc n + i)
               (payload T ((s + int (length p)) + int (length (concat (take i ps))))
                  ((all_issues @ p) @ concat (take i ps)))) = Some (ps ! i)"
      by (simp add: add.assoc)
  qed
  from Cons.prems(2) have lt': "int (length ((all_issues @ p) @ concat ps)) < T" by simp
  from Cons.prems(3) have stop: "page_items (srv (Suc n + length ps)
           (payload T ((s + int (length p)) + int (length (concat ps)))
              ((all_issues @ p) @ concat ps))) = None"
    by (simp add: add.assoc)
  from Cons.IH [OF rest lt' stop]
  have "snd (fetch_pages srv T (Suc n) (s + int (length p)) (all_issues @ p)
               (sent @ [payload T s all_issues])) = (all_issues @ p) @ concat ps" .
  moreover have "fetch_pages srv T n s all_issues sent
      = fetch_pages srv T (Suc n) (s + int (length p)) (all_issues @ p)
          (sent @ [payload T s all_issues])"
    using lt first by (rule fetch_pages_step)
  ultimately show ?case by simp
qed

lemma probe_failed:
  assumes "request_failed (srv 0 CountProbe)"
  shows "fetch_jira_issues srv max_issues = ([CountProbe], Inr [])"
  using assms by (cases "srv 0 CountProbe") (simp_all add: fetch_jira_issues_def)

lemma failing_server_pages:
  "page_items (failing_server n (PageRequest 0 m)) = Some (replicate 100 (JObj []))"
  "page_items (failing_server n (PageRequest 100 m)) = Some (replicate 20 (JObj []))"
  "request_failed (failing_server n (PageRequest 120 m))"
  by (simp_all add: failing_server_def page_items_def)

text \<open>
  Claim C1. When the count probe fails, by a status other than 200 or by an exception of
  the transport, \<^verbatim>\<open>fetch_jira_issues\<close> returns the empty list. When a page request
  fails in one of these ways, the loop ends and the function returns the records
  accumulated so far: after pages that were received in full, the result is exactly
  their records, in order. A failure after 120 accumulated records gives those 120
  records.
\<close>

theorem failures_keep_partial_result:
  "(request_failed (srv 0 CountProbe) \<longrightarrow>
      fetch_jira_issues srv max_issues = ([CountProbe], Inr []))
   \<and> (int (length all_issues) < T \<and> request_failed (srv n (payload T s all_issues)) \<longrightarrow>
        fetch_pages srv T n s all_issues sent = (sent @ [payload T s all_issues], all_issues))
   \<and> (srv 0 CountProbe = Response 200 (Some data)
        \<and> py_subscript data ''total'' = Inr (JInt total_available)
        \<and> (\<forall>i < length pages.
              page_items (srv (Suc i)
                (PageRequest (int (length (concat (take i pages))))
                   (min 100 (target max_issues total_available
                              - int (length (concat (take i pages))))))) = Some (pages ! i))
        \<and> int (length (concat pages)) < target max_issues total_available
        \<and> request_failed (srv (Suc (length pages))
             (PageRequest (int (length (concat pages)))
                (min 100 (target max_issues total_available - int (length (concat pages))))))
      \<longrightarrow> snd (fetch_jira_issues srv max_issues) = Inr (concat pages)
          \<and> (length (concat pages) = 120 \<longrightarrow>
               (\<exists>issues. snd (fetch_jira_issues srv max_issues) = Inr issues
                         \<and> length issues = 120)))"
proof -
  have a: "request_failed (srv 0 CountProbe) \<longrightarrow>
      fetch_jira_issues srv max_issues = ([CountProbe], Inr [])"
    by (simp add: probe_failed)
  have b: "int (length all_issues) < T \<and> request_failed (srv n (payload T s all_issues)) \<longrightarrow>
        fetch_pages srv T n s all_issues sent = (sent @ [payload T s all_issues], all_issues)"
    by (simp add: fetch_pages_stop request_failed_no_items)
  have c: "snd (fetch_jira_issues srv max_issues) = Inr (concat pages)"
    if p: "srv 0 CountProbe = Response 200 (Some data)"
        "py_subscript data ''total'' = Inr (JInt total_available)"
      and ok: "\<forall>i < length pages.
              page_items (srv (Suc i)
                (PageRequest (int (length (concat (take i pages))))
                   (min 100 (target max_issues total_available
                              - int (length (concat (take i pages))))))) = Some (pages ! i)"
      and lt: "int (length (concat pages)) < target max_issues total_available"
      and fail: "request_failed (srv (Suc (length pages))
             (PageRequest (int (length (concat pages)))
                (min 100 (target max_issues total_available - int (length (concat pages))))))"
  proof -
    let ?T = "target max_issues total_available"
    have 1: "\<forall>i < length pages.
             page_items (srv (1 + i)
               (payload ?T (0 + int (length (concat (take i pages))))
                  ([] @ concat (take i pages)))) = Some (pages ! i)"
      using ok by (simp add: payload_def)
    have 2: "int (length ([] @ concat pages)) < ?T"
      using lt by simp
    have 3: "page_items (srv (1 + length pages)
           (payload ?T (0 + int (length (concat pages))) ([] @ concat pages))) = None"
      using request_failed_no_items [OF fail] by (simp add: payload_def)
    from fetch_pages_partial [OF 1 2 3]
    have "snd (fetch_pages srv ?T 1 0 [] [CountProbe]) = concat pages" by simp
    with fetch_jira_issues_probed [of srv data total_available max_issues] p
    show ?thesis by simp
  qed
  from a b c show ?thesis by blast
qed

theorem failures_keep_partial_result_witness:
  "failing_server 0 CountProbe = Response 200 (Some (JObj [(''total'', JInt 250)]))
   \<and> request_failed (failing_server 3 (PageRequest 120 100))
   \<and> snd (fetch_jira_issues failing_server None)
        = Inr (replicate 100 (JObj []) @ replicate 20 (JObj []))
   \<and> (\<exists>issues. snd (fetch_jira_issues failing_server None) = Inr issues \<and> length issues = 120)"
proof -
  let ?pages = "[replicate 100 (JObj []), replicate 20 (JObj [])]"
  have p: "failing_server 0 CountProbe = Response 200 (Some (JObj [(''total'', JInt 250)]))"
    by (simp add: failing_server_def)
  have q: "py_subscript (JObj [(''total'', JInt 250)]) ''total'' = Inr (JInt 250)"
    by simp
  have ok: "\<forall>i < length ?pages.
              page_items (failing_server (Suc i)
                (PageRequest (int (length (concat (take i ?pages))))
                   (min 100 (target None 250
                              - int (length (concat (take i ?pages))))))) = Some (?pages ! i)"
    by (simp add: All_less_Suc failing_server_pages)
  have lt: "int (length (concat ?pages)) < target None 250"
    by (simp add: target_def)
  have fail: "request_failed (failing_server (Suc (length ?pages))
             (PageRequest (int (length (concat ?pages)))
                (min 100 (target None 250 - int (length (concat ?pages))))))"
    by (simp add: failing_server_pages)
  have len: "length (concat ?pages) = 120" by simp
  from failures_keep_partial_result
         [of failing_server None _ _ _ _ _ "JObj [(''total'', JInt 250)]" 250 ?pages]
       p q ok lt fail len
  have "snd (fetch_jira_issues failing_server None) = Inr (concat ?pages)
        \<and> (\<exists>issues. snd (fetch_jira_issues failing_server None) = Inr issues
                         \<and> length issues = 120)"
    by blast
  with p failing_server_pages(3) [of 3 100] show ?thesis by simp
qed

end
